theory Spec2Isabelle
  imports Main
begin

section \<open>The Go library functions the generator calls\<close>

text \<open>
  Go strings are byte sequences; they are modelled as \<open>string\<close> (a list of bytes).
  The functions of package \<open>strings\<close> and \<open>strconv\<close> that \<open>generator.go\<close> calls
  are modelled after the library's documented behaviour and its implementation
  (\<open>Index\<close>, \<open>Count\<close>, \<open>genSplit\<close>, \<open>Trim\<close>, \<open>ToLower\<close>, \<open>Atoi\<close>).
  A slice index out of range panics in Go: \<open>index\<close> returns the panic as a value.
\<close>

datatype error = RuntimePanic string

datatype NumError = ErrSyntax | ErrRange

fun HasPrefix :: "string \<Rightarrow> string \<Rightarrow> bool" where
  "HasPrefix s [] = True"
| "HasPrefix [] (p # ps) = False"
| "HasPrefix (c # cs) (p # ps) = (c = p \<and> HasPrefix cs ps)"

text \<open>\<open>strings.Index\<close>: the byte offset of the first occurrence, or \<open>-1\<close>.\<close>

fun Index :: "string \<Rightarrow> string \<Rightarrow> int" where
  "Index [] substr = (if HasPrefix [] substr then 0 else - 1)"
| "Index (c # cs) substr =
     (if HasPrefix (c # cs) substr then 0
      else (let i = Index cs substr in if i < 0 then - 1 else i + 1))"

definition Contains :: "string \<Rightarrow> string \<Rightarrow> bool" where
  "Contains s substr = (Index s substr \<ge> 0)"

text \<open>
  \<open>strings.Count\<close>: the number of non-overlapping occurrences, found from the left;
  for the empty separator Go returns the number of code points plus one (bytes here).
  The recursion is on a strictly shorter remainder, bounded by the fuel \<open>length s\<close>.
\<close>

fun Count_from :: "nat \<Rightarrow> string \<Rightarrow> string \<Rightarrow> nat" where
  "Count_from 0 s substr = 0"
| "Count_from (Suc k) s substr =
     (let i = Index s substr in
      if i < 0 then 0
      else 1 + Count_from k (drop (nat i + length substr) s) substr)"

definition Count :: "string \<Rightarrow> string \<Rightarrow> nat" where
  "Count s substr =
     (if substr = [] then length s + 1 else Count_from (length s) s substr)"

text \<open>
  The loop of \<open>genSplit\<close>: \<open>k\<close> is the number of cuts still allowed (\<open>n - 1 - i\<close> in
  the Go code); each cut is made at the first occurrence of \<open>sep\<close> in the remainder.
\<close>

fun genSplit_loop :: "nat \<Rightarrow> string \<Rightarrow> string \<Rightarrow> string list" where
  "genSplit_loop 0 s sep = [s]"
| "genSplit_loop (Suc k) s sep =
     (let m = Index s sep in
      if m < 0 then [s]
      else take (nat m) s # genSplit_loop k (drop (nat m + length sep) s) sep)"

definition genSplit :: "string \<Rightarrow> string \<Rightarrow> int \<Rightarrow> string list" where
  "genSplit s sep n =
     (if n = 0 then []
      else if sep = [] then
        (let k = (if n < 0 \<or> nat n > length s then length s else nat n)
         in if k = 0 then [] else map (\<lambda>c. [c]) (take (k - 1) s) @ [drop (k - 1) s])
      else
        (let n1 = (if n < 0 then Count s sep + 1 else nat n);
             n2 = (if n1 > length s + 1 then length s + 1 else n1)
         in genSplit_loop (n2 - 1) s sep))"

definition Split :: "string \<Rightarrow> string \<Rightarrow> string list" where
  "Split s sep = genSplit s sep (- 1)"

definition SplitN :: "string \<Rightarrow> string \<Rightarrow> int \<Rightarrow> string list" where
  "SplitN s sep n = genSplit s sep n"

text \<open>\<open>strings.Trim\<close>: leading and trailing bytes of the cutset removed.\<close>

definition Trim :: "string \<Rightarrow> string \<Rightarrow> string" where
  "Trim s cutset =
     rev (dropWhile (\<lambda>c. c \<in> set cutset) (rev (dropWhile (\<lambda>c. c \<in> set cutset) s)))"

text \<open>Slice indexing \<open>a[i]\<close>, with Go's run-time panic when \<open>i\<close> is out of range.\<close>

definition index :: "'a list \<Rightarrow> nat \<Rightarrow> error + 'a" where
  "index a i =
     (if i < length a then Inr (a ! i)
      else Inl (RuntimePanic ''index out of range''))"

text \<open>
  \<open>strings.ToLower\<close>: a string of ASCII bytes only is lowered bytewise (and returned
  as it is when it has no upper-case letter); any other string goes through
  \<open>Map(unicode.ToLower, s)\<close>, whose case tables are not part of this development and are
  taken as the parameter \<open>unicodeMap\<close>.
\<close>

definition isASCII :: "string \<Rightarrow> bool" where
  "isASCII s = list_all (\<lambda>c. (of_char c :: nat) < 128) s"

definition isUpper :: "char \<Rightarrow> bool" where
  "isUpper c = (65 \<le> (of_char c :: nat) \<and> (of_char c :: nat) \<le> 90)"

definition lowerByte :: "char \<Rightarrow> char" where
  "lowerByte c = (if isUpper c then char_of ((of_char c :: nat) + 32) else c)"

definition ToLower :: "(string \<Rightarrow> string) \<Rightarrow> string \<Rightarrow> string" where
  "ToLower unicodeMap s =
     (if isASCII s then (if \<not> list_ex isUpper s then s else map lowerByte s)
      else unicodeMap s)"

text \<open>
  \<open>strconv.Atoi\<close> on a 64-bit platform: an optional sign, then one or more decimal
  digits, and the value must fit \<open>int\<close>. The program only tests whether the error is
  nil; which of the two errors a text that is both malformed and too large gets is not
  distinguished here.
\<close>

definition digit_of :: "char \<Rightarrow> nat option" where
  "digit_of ch =
     (let v = (of_char ch :: nat) in if 48 \<le> v \<and> v \<le> 57 then Some (v - 48) else None)"

fun parse_digits :: "string \<Rightarrow> int \<Rightarrow> int option" where
  "parse_digits [] n = Some n"
| "parse_digits (ch # rest) n =
     (case digit_of ch of
        None \<Rightarrow> None
      | Some d \<Rightarrow> parse_digits rest (n * 10 + int d))"

definition Atoi :: "string \<Rightarrow> NumError + int" where
  "Atoi s0 =
     (if s0 = [] then Inl ErrSyntax
      else
        (let s = (if hd s0 = CHR ''-'' \<or> hd s0 = CHR ''+'' then tl s0 else s0) in
         if s = [] then Inl ErrSyntax
         else
           (case parse_digits s 0 of
              None \<Rightarrow> Inl ErrSyntax
            | Some n \<Rightarrow>
                (let v = (if hd s0 = CHR ''-'' then - n else n) in
                 if v < - (2 ^ 63) \<or> v > 2 ^ 63 - 1 then Inl ErrRange else Inr v))))"

text \<open>Decimal printing of an \<open>int\<close>, as \<open>fmt\<close> and \<open>text/template\<close> print it.\<close>

definition digit_char :: "nat \<Rightarrow> char" where
  "digit_char d = ''0123456789'' ! (d mod 10)"

function FormatUint :: "nat \<Rightarrow> string" where
  "FormatUint n =
     (if n < 10 then [digit_char n] else FormatUint (n div 10) @ [digit_char (n mod 10)])"
  by pat_completeness auto
termination
  by (relation "measure (\<lambda>n. n)") auto

declare FormatUint.simps [simp del]

definition Itoa :: "int \<Rightarrow> string" where
  "Itoa i = (if i < 0 then CHR ''-'' # FormatUint (nat (- i)) else FormatUint (nat i))"

text \<open>\<open>fmt.Println\<close>: operands separated by one space, a newline appended.\<close>

fun Sprint_spaced :: "string list \<Rightarrow> string" where
  "Sprint_spaced [] = []"
| "Sprint_spaced [a] = a"
| "Sprint_spaced (a # b # rest) = a @ '' '' @ Sprint_spaced (b # rest)"

definition Sprintln :: "string list \<Rightarrow> string" where
  "Sprintln operands = Sprint_spaced operands @ ''\<newline>''"

section \<open>The syntax tree of \<open>go/ast\<close>\<close>

text \<open>
  \<open>ast.Node\<close> is an interface; the node kinds the generator looks at, and those needed
  to place a type declaration in a file (at top level, or inside a function body), are
  constructors of \<open>node\<close>. \<open>OtherNode\<close> is any other node, with its children in the
  order \<open>ast.Walk\<close> visits them. \<open>ast.Field\<close> carries the names, the type expression
  and the raw tag literal (\<open>Tag.Value\<close>, quotes included), \<open>None\<close> for a nil tag.
  Comment groups are left out of the tree: they have no children that declare a type,
  and the closure of \<open>main\<close> does nothing on them.
\<close>

datatype 'e field = Field (Names: "string list") (FieldType: 'e) (Tag: "string option")

datatype node =
    File string "node list"
  | GenDecl "node list"
  | FuncDecl string node node
  | BlockStmt "node list"
  | DeclStmt node
  | TypeSpec string node
  | StructType "node field list"
  | FieldList "node field list"
  | FieldNode "node field"
  | Ident string
  | BasicLit string
  | StarExpr node
  | ArrayType "node option" node
  | MapType node node
  | InterfaceType "node field list"
  | OtherNode "node list"

text \<open>The children of a node, in the order of \<open>ast.Walk\<close> (nil children left out).\<close>

fun children :: "node \<Rightarrow> node list" where
  "children (File name decls) = Ident name # decls"
| "children (GenDecl specs) = specs"
| "children (FuncDecl name typ body) = [Ident name, typ, body]"
| "children (BlockStmt stmts) = stmts"
| "children (DeclStmt decl) = [decl]"
| "children (TypeSpec name typ) = [Ident name, typ]"
| "children (StructType fields) = [FieldList fields]"
| "children (FieldList fields) = map FieldNode fields"
| "children (FieldNode f) =
     map Ident (Names f) @ [FieldType f] @
     (case Tag f of None \<Rightarrow> [] | Some v \<Rightarrow> [BasicLit v])"
| "children (Ident name) = []"
| "children (BasicLit v) = []"
| "children (StarExpr x) = [x]"
| "children (ArrayType len elt) = (case len of None \<Rightarrow> [] | Some l \<Rightarrow> [l]) @ [elt]"
| "children (MapType k v) = [k, v]"
| "children (InterfaceType methods) = [FieldList methods]"
| "children (OtherNode cs) = cs"

text \<open>
  \<open>ast.Inspect f n\<close>: \<open>f\<close> is called on the node; when it answers \<open>true\<close> the
  children are inspected in order and \<open>f\<close> is then called on nil; when it answers
  \<open>false\<close> the children of that node are skipped, and the walk goes on with the node's
  siblings. The variables the closure writes are the threaded state \<open>'s\<close>.
\<close>

definition walk_measure :: "node \<Rightarrow> nat" where
  "walk_measure n =
     2 * size n + (case n of StructType _ \<Rightarrow> 1 | InterfaceType _ \<Rightarrow> 1 | _ \<Rightarrow> 0)"

lemma field_in_list_size:
  "f \<in> set fs \<Longrightarrow> size_field size f < size_list (size_field size) fs"
  by (induction fs) auto

lemma FieldType_size: "size (FieldType f) < Suc (size_field size f)"
  by (cases f) simp

lemma walk_bonus_le:
  "(case c of StructType _ \<Rightarrow> 1 | InterfaceType _ \<Rightarrow> 1 | _ \<Rightarrow> 0) \<le> (1::nat)"
  by (cases c) simp_all

lemma size_less_walk_measure: "size c < size n \<Longrightarrow> walk_measure c < walk_measure n"
  using walk_bonus_le [of c] by (simp add: walk_measure_def)

lemma children_measure: "c \<in> set (children n) \<Longrightarrow> walk_measure c < walk_measure n"
proof (cases n)
  case (StructType fs)
  then show "c \<in> set (children n) \<Longrightarrow> ?thesis" by (simp add: walk_measure_def)
next
  case (InterfaceType fs)
  then show "c \<in> set (children n) \<Longrightarrow> ?thesis" by (simp add: walk_measure_def)
next
  case (FieldList fs)
  then show "c \<in> set (children n) \<Longrightarrow> ?thesis"
    using field_in_list_size by (intro size_less_walk_measure) fastforce
next
  case (FieldNode f)
  then show "c \<in> set (children n) \<Longrightarrow> ?thesis"
    using FieldType_size [of f]
    by (intro size_less_walk_measure) (auto split: option.splits)
qed (auto intro!: size_less_walk_measure simp: less_Suc_eq_le size_list_estimation'
      split: option.splits)

function Inspect :: "(node option \<Rightarrow> 's \<Rightarrow> bool \<times> 's) \<Rightarrow> node \<Rightarrow> 's \<Rightarrow> 's" where
  "Inspect f n s =
     (case f (Some n) s of
        (False, s1) \<Rightarrow> s1
      | (True, s1) \<Rightarrow> snd (f None (fold (Inspect f) (children n) s1)))"
  by pat_completeness auto
termination
  by (relation "measure (\<lambda>(f, n, s). walk_measure n)") (auto simp: children_measure)

declare Inspect.simps [simp del]

section \<open>The generator: \<open>generator.go\<close>\<close>

record SchemaField =
  Name :: string
  Type :: string
  Required :: bool
  MinLength :: "int option"
  Format :: string
  Description :: string

record SchemaType =
  TypeName :: string
  Fields :: "SchemaField list"

text \<open>
  A Go \<open>map[string]string\<close>; reading a missing key gives the empty string.
\<close>

definition lookup :: "(string \<rightharpoonup> string) \<Rightarrow> string \<Rightarrow> string" where
  "lookup tags k = (case tags k of None \<Rightarrow> [] | Some v \<Rightarrow> v)"

text \<open>
  \<open>parseFieldTags\<close>: the loop over the space-separated tokens of the tag. A token that
  does not split at \<open>:\<close> into exactly two parts is passed over; the two element reads
  are inside the length test.
\<close>

fun parseFieldTags_range :: "string list \<Rightarrow> (string \<rightharpoonup> string) \<Rightarrow> (string \<rightharpoonup> string)" where
  "parseFieldTags_range [] tags = tags"
| "parseFieldTags_range (t # ts) tags =
     (let parts = Split t '':'' in
      if length parts \<noteq> 2 then parseFieldTags_range ts tags
      else parseFieldTags_range ts (tags(parts ! 0 \<mapsto> Trim (parts ! 1) ''\"'')))"

definition parseFieldTags :: "string \<Rightarrow> (string \<rightharpoonup> string)" where
  "parseFieldTags tag = parseFieldTags_range (Split (Trim tag ''`'') '' '') Map.empty"

definition getFieldType :: "node \<Rightarrow> string" where
  "getFieldType expr =
     (case expr of
        Ident name \<Rightarrow>
          (if name = ''string'' then ''string''
           else if name = ''int'' \<or> name = ''int32'' \<or> name = ''int64'' then ''integer''
           else if name = ''float32'' \<or> name = ''float64'' then ''number''
           else if name = ''bool'' then ''boolean''
           else ''string'')
      | _ \<Rightarrow> ''string'')"

text \<open>
  The body of the loop of \<open>parseStruct\<close> for one field: \<open>Inr None\<close> is \<open>continue\<close>,
  \<open>Inr (Some f)\<close> the entry appended, \<open>Inl\<close> a panic of one of the slice reads.
\<close>

definition parseStruct_minLength :: "string \<Rightarrow> SchemaField \<Rightarrow> error + SchemaField" where
  "parseStruct_minLength schemaTag schemaField =
     (if Contains schemaTag ''minLength='' then
        (case index (SplitN schemaTag ''minLength='' 2) 1 of
           Inl e \<Rightarrow> Inl e
         | Inr rest \<Rightarrow>
             (case index (SplitN rest '','' 2) 0 of
                Inl e \<Rightarrow> Inl e
              | Inr minLengthStr \<Rightarrow>
                  (case Atoi minLengthStr of
                     Inr val \<Rightarrow> Inr (schemaField\<lparr>MinLength := Some val\<rparr>)
                   | Inl err \<Rightarrow> Inr schemaField)))
      else Inr schemaField)"

definition parseStruct_format :: "string \<Rightarrow> SchemaField \<Rightarrow> error + SchemaField" where
  "parseStruct_format schemaTag schemaField =
     (if Contains schemaTag ''format='' then
        (case index (Split schemaTag ''format='') 1 of
           Inl e \<Rightarrow> Inl e
         | Inr format \<Rightarrow>
             (case index (Split format '','') 0 of
                Inl e \<Rightarrow> Inl e
              | Inr format' \<Rightarrow> Inr (schemaField\<lparr>Format := format'\<rparr>)))
      else Inr schemaField)"

definition parseStruct_body :: "node field \<Rightarrow> error + SchemaField option" where
  "parseStruct_body fld =
     (case Tag fld of
        None \<Rightarrow> Inr None
      | Some tagValue \<Rightarrow>
          (let tags = parseFieldTags tagValue in
           if lookup tags ''json'' = ''-'' then Inr None
           else
             (let schemaField =
                \<lparr>Name = lookup tags ''json'',
                 Type = getFieldType (FieldType fld),
                 Required = Contains (lookup tags ''schema'') ''required'',
                 MinLength = None, Format = [], Description = []\<rparr>
              in case parseStruct_minLength (lookup tags ''schema'') schemaField of
                   Inl e \<Rightarrow> Inl e
                 | Inr schemaField1 \<Rightarrow>
                     (case parseStruct_format (lookup tags ''schema'') schemaField1 of
                        Inl e \<Rightarrow> Inl e
                      | Inr schemaField2 \<Rightarrow> Inr (Some schemaField2)))))"

fun parseStruct_range :: "node field list \<Rightarrow> SchemaType \<Rightarrow> error + SchemaType" where
  "parseStruct_range [] schema = Inr schema"
| "parseStruct_range (fld # rest) schema =
     (case parseStruct_body fld of
        Inl e \<Rightarrow> Inl e
      | Inr None \<Rightarrow> parseStruct_range rest schema
      | Inr (Some schemaField) \<Rightarrow>
          parseStruct_range rest (schema\<lparr>Fields := Fields schema @ [schemaField]\<rparr>))"

definition parseStruct :: "string \<Rightarrow> node field list \<Rightarrow> error + SchemaType" where
  "parseStruct typeName fieldList =
     parseStruct_range fieldList \<lparr>TypeName = typeName, Fields = []\<rparr>"

text \<open>
  \<open>schemaTemplate\<close>, executed by \<open>text/template\<close>. \<open>{{-\<close> removes the white space
  before it, so each optional member starts at its comma. \<open>{{if $i}}\<close> holds from the
  second field on, \<open>{{if $field.MinLength}}\<close> when the pointer is not nil (also when it
  points to 0), \<open>{{if $field.Format}}\<close> when the string is not empty. Values are
  written as they are, with no escaping. Execution returns an error value in Go; no
  action of this template can fail on a \<open>SchemaType\<close>, so the model always returns
  the text.
\<close>

definition Execute_header :: "string \<Rightarrow> string" where
  \<open>Execute_header typeName =
     ''{\<newline>    "$schema": "http://json-schema.org/draft-07/schema#",\<newline>    "title": "'' @
     typeName @
     ''",\<newline>    "type": "object",\<newline>    "properties": {''\<close>

definition Execute_field :: "nat \<Rightarrow> SchemaField \<Rightarrow> string" where
  \<open>Execute_field i field =
     ''\<newline>        '' @ (if i \<noteq> 0 then '','' else []) @
     ''\<newline>        "'' @ Name field @ ''": {\<newline>            "type": "'' @ Type field @ ''"'' @
     (if Required field then '',\<newline>            "required": true'' else []) @
     (case MinLength field of
        None \<Rightarrow> []
      | Some v \<Rightarrow> '',\<newline>            "minLength": '' @ Itoa v) @
     (if Format field \<noteq> [] then '',\<newline>            "format": "'' @ Format field @ ''"''
      else []) @
     (if Description field \<noteq> []
      then '',\<newline>            "description": "'' @ Description field @ ''"'' else []) @
     ''\<newline>        }''\<close>

fun Execute_range :: "nat \<Rightarrow> SchemaField list \<Rightarrow> string" where
  "Execute_range i [] = []"
| "Execute_range i (field # rest) = Execute_field i field @ Execute_range (Suc i) rest"

definition Execute_footer :: "string" where
  \<open>Execute_footer = ''\<newline>    }\<newline>}''\<close>

definition Execute :: "SchemaType \<Rightarrow> string + string" where
  "Execute schema =
     Inr (Execute_header (TypeName schema) @ Execute_range 0 (Fields schema) @ Execute_footer)"

text \<open>
  What the process does to the outside is a list of events in the order they happen:
  text written to standard output or standard error, and calls of \<open>os.WriteFile\<close> with
  the name, the data, the permission bits and the error returned (\<open>None\<close> for nil).
  The parser, the file system's answer to a write and the Unicode case tables are the
  environment. \<open>files_after\<close> gives the contents of the files after the events: a
  successful write replaces the content of the named file, whatever it was.
\<close>

datatype event =
    Stdout string
  | Stderr string
  | WriteFile string string nat "string option"

record env =
  parser_ParseFile :: "string \<Rightarrow> string + node"
  os_WriteFile :: "string \<Rightarrow> string \<Rightarrow> nat \<Rightarrow> string option"
  unicode_ToLower :: "string \<Rightarrow> string"

fun apply_event :: "event \<Rightarrow> (string \<rightharpoonup> string) \<Rightarrow> (string \<rightharpoonup> string)" where
  "apply_event (WriteFile name data perm None) fs = fs(name \<mapsto> data)"
| "apply_event (WriteFile name data perm (Some err)) fs = fs"
| "apply_event (Stdout text) fs = fs"
| "apply_event (Stderr text) fs = fs"

definition files_after :: "event list \<Rightarrow> (string \<rightharpoonup> string) \<Rightarrow> (string \<rightharpoonup> string)" where
  "files_after events fs = fold apply_event events fs"

fun stdout_of :: "event list \<Rightarrow> string" where
  "stdout_of [] = []"
| "stdout_of (Stdout text # rest) = text @ stdout_of rest"
| "stdout_of (e # rest) = stdout_of rest"

fun writes_of :: "event list \<Rightarrow> event list" where
  "writes_of [] = []"
| "writes_of (WriteFile name data perm err # rest) =
     WriteFile name data perm err # writes_of rest"
| "writes_of (e # rest) = writes_of rest"

text \<open>
  The permission bits: three octal digits for owner, group and others, each the sum of
  4 (read), 2 (write) and 1 (execute). The literal \<open>0644\<close> of the source is octal.
\<close>

definition perm_0644 :: nat where
  "perm_0644 = 6 * 8 ^ 2 + 4 * 8 + 4"

datatype who = Owner | Group | Others

definition perm_digit :: "nat \<Rightarrow> who \<Rightarrow> nat" where
  "perm_digit perm w =
     (case w of Owner \<Rightarrow> perm div 64 mod 8 | Group \<Rightarrow> perm div 8 mod 8 | Others \<Rightarrow> perm mod 8)"

definition readable :: "nat \<Rightarrow> who \<Rightarrow> bool" where
  "readable perm w = (perm_digit perm w div 4 mod 2 = 1)"

definition writable :: "nat \<Rightarrow> who \<Rightarrow> bool" where
  "writable perm w = (perm_digit perm w div 2 mod 2 = 1)"

definition executable :: "nat \<Rightarrow> who \<Rightarrow> bool" where
  "executable perm w = (perm_digit perm w mod 2 = 1)"

text \<open>
  \<open>generateSchemaFile\<close> returns the events it caused and the error it returns
  (\<open>None\<close> for nil).
\<close>

definition generateSchemaFile :: "env \<Rightarrow> SchemaType \<Rightarrow> event list \<times> string option" where
  \<open>generateSchemaFile e schema =
     (let outputFile = ToLower (unicode_ToLower e) (TypeName schema) @ ''.schema.json'' in
      case Execute schema of
        Inl err \<Rightarrow> ([], Some (''template execution failed: '' @ err))
      | Inr output \<Rightarrow>
          (let printed =
                 Stdout (Sprintln [''Schema file generated successfully\<newline>'',
                                   ''FileName: '', outputFile]);
               err = os_WriteFile e outputFile output perm_0644
           in ([printed, WriteFile outputFile output perm_0644 err], err)))\<close>

text \<open>
  The closure \<open>main\<close> gives to \<open>ast.Inspect\<close>. Its state is the variable \<open>schema\<close>
  (\<open>None\<close> for nil); a panic raised inside \<open>parseStruct\<close> ends the program, which the
  state \<open>Inl\<close> records: nothing is done after it.
\<close>

definition main_inspect ::
  "string \<Rightarrow> node option \<Rightarrow> error + SchemaType option \<Rightarrow> bool \<times> (error + SchemaType option)" where
  "main_inspect typeName n st =
     (case st of
        Inl e \<Rightarrow> (False, st)
      | Inr schema \<Rightarrow>
          (case n of
             Some (TypeSpec name typ) \<Rightarrow>
               (if name \<noteq> typeName then (True, st)
                else
                  (case typ of
                     StructType fieldList \<Rightarrow>
                       (case parseStruct name fieldList of
                          Inl e \<Rightarrow> (False, Inl e)
                        | Inr parsed \<Rightarrow> (False, Inr (Some parsed)))
                   | _ \<Rightarrow> (True, st)))
           | _ \<Rightarrow> (True, st)))"

text \<open>
  \<open>main\<close>, from the value of the \<open>-type\<close> flag and the remaining arguments to the
  events and the exit status. \<open>os.Exit(1)\<close> ends the process with status 1, returning
  from \<open>main\<close> with status 0, a panic with status 2.
\<close>

definition main :: "env \<Rightarrow> string \<Rightarrow> string list \<Rightarrow> event list \<times> nat" where
  \<open>main e typeName args =
     (if typeName = [] then
        ([Stdout (Sprintln [''Please specify type name using -type flag''])], 1)
      else if length args < 1 then
        ([Stdout (Sprintln [''Please specify an input file''])], 1)
      else
        (let inputFile = args ! 0 in
         case parser_ParseFile e inputFile of
           Inl err \<Rightarrow> ([Stdout (''Error parsing file: '' @ err @ ''\<newline>'')], 1)
         | Inr tree \<Rightarrow>
             (case Inspect (main_inspect typeName) tree (Inr None) of
                Inl (RuntimePanic msg) \<Rightarrow> ([Stderr (''panic: '' @ msg)], 2)
              | Inr None \<Rightarrow>
                  ([Stdout (''Type '' @ typeName @ '' not found in '' @ inputFile @ ''\<newline>'')], 1)
              | Inr (Some schema) \<Rightarrow>
                  (case generateSchemaFile e schema of
                     (events, Some err) \<Rightarrow>
                       (events @ [Stdout (''Error generating schema: '' @ err @ ''\<newline>'')], 1)
                   | (events, None) \<Rightarrow> (events, 0)))))\<close>

section \<open>Notions used to state the properties\<close>

text \<open>
  The text of an option of the schema tag: what follows the first occurrence of the key,
  up to the next comma or the end.
\<close>

definition option_text :: "string \<Rightarrow> string \<Rightarrow> string" where
  "option_text key s =
     takeWhile (\<lambda>x. x \<noteq> CHR '','') (drop (nat (Index s key) + length key) s)"

text \<open>The minimum length a schema tag asks for, if it has one that \<open>Atoi\<close> accepts.\<close>

definition minLength_of :: "string \<Rightarrow> int option" where
  "minLength_of s =
     (if Contains s ''minLength='' then
        (case Atoi (option_text ''minLength='' s) of Inr v \<Rightarrow> Some v | Inl err \<Rightarrow> None)
      else None)"

text \<open>
  A field is taggable when it has a tag and the \<open>json\<close> value that \<open>parseFieldTags\<close>
  finds in it is not the skip marker.
\<close>

definition taggable :: "node field \<Rightarrow> bool" where
  "taggable fld =
     (case Tag fld of
        None \<Rightarrow> False
      | Some tagValue \<Rightarrow> lookup (parseFieldTags tagValue) ''json'' \<noteq> ''-'')"

text \<open>
  The example of the specification: the structure \<open>User\<close> with the fields \<open>ID\<close>,
  \<open>Name\<close>, \<open>Email\<close> and \<open>IsActive\<close>, the schema and the text expected for it, and
  an environment in which the parser returns a file declaring it and writes succeed.
\<close>

definition User_example :: "node field list" where
  \<open>User_example =
    [Field [''ID''] (Ident ''int'') (Some ''`json:"id" schema:"required,min=1"`''),
     Field [''Name''] (Ident ''string'') (Some ''`json:"name" schema:"required,minLength=2"`''),
     Field [''Email''] (Ident ''string'') (Some ''`json:"email" schema:"required,format=email"`''),
     Field [''IsActive''] (Ident ''bool'') (Some ''`json:"isActive"`'')]\<close>

definition User_example_schema :: SchemaType where
  "User_example_schema =
     \<lparr>TypeName = ''User'',
      Fields =
        [\<lparr>Name = ''id'', Type = ''integer'', Required = True,
          MinLength = None, Format = [], Description = []\<rparr>,
         \<lparr>Name = ''name'', Type = ''string'', Required = True,
          MinLength = Some 2, Format = [], Description = []\<rparr>,
         \<lparr>Name = ''email'', Type = ''string'', Required = True,
          MinLength = None, Format = ''email'', Description = []\<rparr>,
         \<lparr>Name = ''isActive'', Type = ''boolean'', Required = False,
          MinLength = None, Format = [], Description = []\<rparr>]\<rparr>"

definition User_example_output :: string where
  \<open>User_example_output =
  ''{\<newline>'' @
  ''    "$schema": "http://json-schema.org/draft-07/schema#",\<newline>'' @
  ''    "title": "User",\<newline>'' @
  ''    "type": "object",\<newline>'' @
  ''    "properties": {\<newline>'' @
  ''        \<newline>'' @
  ''        "id": {\<newline>'' @
  ''            "type": "integer",\<newline>'' @
  ''            "required": true\<newline>'' @
  ''        }\<newline>'' @
  ''        ,\<newline>'' @
  ''        "name": {\<newline>'' @
  ''            "type": "string",\<newline>'' @
  ''            "required": true,\<newline>'' @
  ''            "minLength": 2\<newline>'' @
  ''        }\<newline>'' @
  ''        ,\<newline>'' @
  ''        "email": {\<newline>'' @
  ''            "type": "string",\<newline>'' @
  ''            "required": true,\<newline>'' @
  ''            "format": "email"\<newline>'' @
  ''        }\<newline>'' @
  ''        ,\<newline>'' @
  ''        "isActive": {\<newline>'' @
  ''            "type": "boolean"\<newline>'' @
  ''        }\<newline>'' @
  ''    }\<newline>'' @
  ''}''\<close>

definition User_example_env :: env where
  "User_example_env =
     \<lparr>parser_ParseFile =
        (\<lambda>path. Inr (File ''main'' [GenDecl [TypeSpec ''User'' (StructType User_example)]])),
      os_WriteFile = (\<lambda>name data perm. None),
      unicode_ToLower = (\<lambda>s. s)\<rparr>"

text \<open>
  The entries the loop of \<open>parseStruct\<close> appends for one field (none or one), and the
  property name a field's tag gives.
\<close>

definition entries_of :: "node field \<Rightarrow> SchemaField list" where
  "entries_of fld = (case parseStruct_body fld of Inr (Some entry) \<Rightarrow> [entry] | _ \<Rightarrow> [])"

definition json_name :: "node field \<Rightarrow> string" where
  "json_name fld =
     (case Tag fld of None \<Rightarrow> [] | Some tagValue \<Rightarrow> lookup (parseFieldTags tagValue) ''json'')"

text \<open>
  The reading of the specification's words "parses as a non-negative integer": the text
  is accepted by \<open>Atoi\<close> and its value is not negative. \<open>minLength_field v\<close> is a
  field tagged \<open>json:"x" schema:"minLength=v"\<close>.
\<close>

definition parses_as_nonnegative_integer :: "string \<Rightarrow> bool" where
  "parses_as_nonnegative_integer txt = (case Atoi txt of Inr v \<Rightarrow> 0 \<le> v | Inl err \<Rightarrow> False)"

definition minLength_field :: "string \<Rightarrow> node field" where
  \<open>minLength_field v =
     Field [''X''] (Ident ''string'') (Some (''`json:"x" schema:"minLength='' @ v @ ''"`''))\<close>

text \<open>
  The nodes of a tree, the node itself first. A tree declares a structure type of a
  name when one of its nodes is a type specification of that name whose type is a
  structure type.
\<close>

definition is_struct_decl :: "string \<Rightarrow> node \<Rightarrow> bool" where
  "is_struct_decl typeName n =
     (case n of
        TypeSpec name typ \<Rightarrow>
          name = typeName \<and> (case typ of StructType fieldList \<Rightarrow> True | _ \<Rightarrow> False)
      | _ \<Rightarrow> False)"

function nodes_of :: "node \<Rightarrow> node list" where
  "nodes_of n = n # concat (map nodes_of (children n))"
  by pat_completeness auto
termination
  by (relation "measure walk_measure") (auto simp: children_measure)

declare nodes_of.simps [simp del]

definition declares_struct :: "string \<Rightarrow> node \<Rightarrow> bool" where
  "declares_struct typeName tree = list_ex (is_struct_decl typeName) (nodes_of tree)"

text \<open>
  A file in which \<open>User\<close> is declared, but not as a structure, next to a structure of
  another name; and an environment whose parser returns it.
\<close>

definition alias_only_file :: node where
  "alias_only_file =
     File ''main''
       [GenDecl [TypeSpec ''User'' (Ident ''int'')],
        GenDecl [TypeSpec ''Account'' (StructType [Field [''ID''] (Ident ''int'') (Some ''`json:\"id\"`'')])]]"

definition alias_only_env :: env where
  "alias_only_env =
     \<lparr>parser_ParseFile = (\<lambda>path. Inr alias_only_file),
      os_WriteFile = (\<lambda>name data perm. None),
      unicode_ToLower = (\<lambda>s. s)\<rparr>"

text \<open>
  The name of the output file, the rendered text and the confirmation line of
  \<open>generateSchemaFile\<close>, named so that the properties can speak of them.
\<close>

definition outputFile_of :: "env \<Rightarrow> SchemaType \<Rightarrow> string" where
  "outputFile_of e schema = ToLower (unicode_ToLower e) (TypeName schema) @ ''.schema.json''"

definition output_of :: "SchemaType \<Rightarrow> string" where
  "output_of schema =
     Execute_header (TypeName schema) @ Execute_range 0 (Fields schema) @ Execute_footer"

definition confirmation :: "string \<Rightarrow> string" where
  \<open>confirmation outputFile =
     ''Schema file generated successfully\<newline> FileName:  '' @ outputFile @ ''\<newline>''\<close>

text \<open>An environment in which every write fails.\<close>

definition failing_write_env :: env where
  "failing_write_env =
     \<lparr>parser_ParseFile =
        (\<lambda>path. Inr (File ''main'' [GenDecl [TypeSpec ''User'' (StructType User_example)]])),
      os_WriteFile = (\<lambda>name data perm. Some (''open '' @ name @ '': permission denied'')),
      unicode_ToLower = (\<lambda>s. s)\<rparr>"

text \<open>
  Two files that declare the structure \<open>User\<close> more than once: in the first the second
  declaration is local to a function (which is valid Go); in the second \<open>User\<close> is
  first declared as a type that is not a structure and then twice as a structure (which
  the parser accepts).
\<close>

definition shadowed_User_file :: node where
  \<open>shadowed_User_file =
     File ''main''
       [GenDecl
          [TypeSpec ''User''
             (StructType [Field [''A''] (Ident ''int'') (Some ''`json:"a"`'')])],
        FuncDecl ''f'' (OtherNode [FieldList []])
          (BlockStmt
             [DeclStmt
                (GenDecl
                   [TypeSpec ''User''
                      (StructType [Field [''B''] (Ident ''string'') (Some ''`json:"b"`'')])])])]\<close>

definition duplicate_User_file :: node where
  \<open>duplicate_User_file =
     File ''main''
       [GenDecl [TypeSpec ''User'' (Ident ''int'')],
        GenDecl
          [TypeSpec ''User''
             (StructType [Field [''A''] (Ident ''int'') (Some ''`json:"a"`'')])],
        GenDecl
          [TypeSpec ''User''
             (StructType [Field [''B''] (Ident ''string'') (Some ''`json:"b"`'')])]]\<close>

text \<open>
  Tags at the level of their text. \<open>tag_literal pairs\<close> is the raw string literal of a
  tag made of the pairs \<open>key:"value"\<close>, separated by single spaces and enclosed in
  backquotes; \<open>Join\<close> is \<open>strings.Join\<close>. A key or value is plain when it has no
  space, colon, double quote or backquote.
\<close>

fun Join :: "string list \<Rightarrow> string \<Rightarrow> string" where
  "Join [] sep = []"
| "Join [a] sep = a"
| "Join (a # b # rest) sep = a @ sep @ Join (b # rest) sep"

definition plain :: "string \<Rightarrow> bool" where
  \<open>plain s = (CHR '' '' \<notin> set s \<and> CHR '':'' \<notin> set s \<and> CHR 0x22 \<notin> set s \<and> CHR 0x60 \<notin> set s)\<close>

definition pair_token :: "string \<times> string \<Rightarrow> string" where
  \<open>pair_token p = fst p @ '':"'' @ snd p @ ''"''\<close>

definition tag_literal :: "(string \<times> string) list \<Rightarrow> string" where
  \<open>tag_literal pairs = ''`'' @ Join (map pair_token pairs) '' '' @ ''`''\<close>

text \<open>
  The tag grammar in the words of the specification: the content of the raw literal is
  split at white space; a token of the form \<open>key:"value"\<close>, with one colon, gives the
  key its value, any other token is passed over. \<open>spec_taggable_fields\<close> counts the
  fields of a structure that have a tag whose \<open>json\<close> value, read in this way, is not
  \<open>-\<close>; a declaration of several names declares that many fields, an embedded field
  is one field.
\<close>

definition is_whitespace :: "char \<Rightarrow> bool" where
  "is_whitespace c = (c = CHR '' '' \<or> c = CHR 0x09 \<or> c = CHR 0x0A \<or> c = CHR 0x0D)"

fun ws_tokens :: "string \<Rightarrow> string \<Rightarrow> string list" where
  "ws_tokens cur [] = (if cur = [] then [] else [cur])"
| "ws_tokens cur (c # cs) =
     (if is_whitespace c then (if cur = [] then ws_tokens [] cs else cur # ws_tokens [] cs)
      else ws_tokens (cur @ [c]) cs)"

definition pair_of_token :: "string \<Rightarrow> (string \<times> string) option" where
  "pair_of_token t =
     (let key = takeWhile (\<lambda>c. c \<noteq> CHR '':'') t;
          rest = drop (length key) t;
          val = butlast (drop 2 rest)
      in if 3 \<le> length rest \<and> rest ! 1 = CHR 0x22 \<and> last rest = CHR 0x22 \<and>
            CHR 0x22 \<notin> set key \<and> CHR 0x22 \<notin> set val \<and> CHR '':'' \<notin> set val
         then Some (key, val) else None)"

definition raw_content :: "string \<Rightarrow> string" where
  "raw_content lit =
     (if 2 \<le> length lit \<and> hd lit = CHR 0x60 \<and> last lit = CHR 0x60 then butlast (tl lit)
      else lit)"

fun spec_tags_of :: "string list \<Rightarrow> (string \<rightharpoonup> string) \<Rightarrow> (string \<rightharpoonup> string)" where
  "spec_tags_of [] m = m"
| "spec_tags_of (t # ts) m =
     (case pair_of_token t of
        None \<Rightarrow> spec_tags_of ts m
      | Some (k, v) \<Rightarrow> spec_tags_of ts (m(k \<mapsto> v)))"

definition spec_tags :: "string \<Rightarrow> (string \<rightharpoonup> string)" where
  "spec_tags lit = spec_tags_of (ws_tokens [] (raw_content lit)) Map.empty"

definition spec_taggable_fields :: "node field list \<Rightarrow> nat" where
  "spec_taggable_fields flds =
     sum_list (map (\<lambda>f. case Tag f of
                          None \<Rightarrow> 0
                        | Some lit \<Rightarrow>
                            if spec_tags lit ''json'' = Some ''-'' then 0
                            else max 1 (length (Names f))) flds)"

definition tab_separated_tag :: string where
  \<open>tab_separated_tag = ''`json:"-"'' @ [CHR 0x09] @ ''schema:"required"`''\<close>

definition later_json_tag :: string where
  \<open>later_json_tag = ''`json:"-" note:"see json:x"`''\<close>

text \<open>
  A field declaration given by its names, its type and, when it has a tag, the pairs of
  the tag. A tag is well formed when its keys are distinct and its keys and values are
  plain. A declaration is emitted when it has a tag that has no pair \<open>json:"-"\<close>; its
  property name is the value of the \<open>json\<close> pair, empty when there is none.
  \<open>User_declarations\<close> is the structure of \<open>user.go\<close>, with one more declaration that
  names two fields.
\<close>

type_synonym field_decl = "string list \<times> node \<times> (string \<times> string) list option"

definition well_formed_tag :: "(string \<times> string) list \<Rightarrow> bool" where
  "well_formed_tag pairs =
     (distinct (map fst pairs) \<and> list_all (\<lambda>p. plain (fst p) \<and> plain (snd p)) pairs)"

definition decl_field :: "field_decl \<Rightarrow> node field" where
  "decl_field d = (case d of (names, typ, tag) \<Rightarrow> Field names typ (map_option tag_literal tag))"

definition well_formed_decl :: "field_decl \<Rightarrow> bool" where
  "well_formed_decl d =
     (case d of (names, typ, tag) \<Rightarrow>
        (case tag of None \<Rightarrow> True | Some pairs \<Rightarrow> well_formed_tag pairs))"

definition emitted :: "field_decl \<Rightarrow> bool" where
  "emitted d =
     (case d of (names, typ, tag) \<Rightarrow>
        (case tag of None \<Rightarrow> False | Some pairs \<Rightarrow> (''json'', ''-'') \<notin> set pairs))"

definition property_name :: "field_decl \<Rightarrow> string" where
  "property_name d =
     (case d of (names, typ, tag) \<Rightarrow>
        (case tag of
           None \<Rightarrow> []
         | Some pairs \<Rightarrow> (case map_of pairs ''json'' of None \<Rightarrow> [] | Some v \<Rightarrow> v)))"

definition User_declarations :: "field_decl list" where
  "User_declarations =
     [([''ID''], Ident ''int'', Some [(''json'', ''id''), (''schema'', ''required,min=1'')]),
      ([''Name''], Ident ''string'', Some [(''json'', ''name''), (''schema'', ''required,minLength=2'')]),
      ([''Username''], Ident ''string'',
         Some [(''json'', ''username''), (''schema'', ''required,minLength=5'')]),
      ([''Email''], Ident ''string'', Some [(''json'', ''email''), (''schema'', ''required,format=email'')]),
      ([''IsActive''], Ident ''bool'', Some [(''json'', ''isActive'')]),
      ([''IgnoreInJson''], Ident ''string'', Some [(''json'', ''-'')]),
      ([''NoJSONTag''], Ident ''string'', None),
      ([''E'', ''F''], Ident ''int'', Some [(''json'', ''ef'')])]"

section \<open>Properties of the library functions\<close>


lemma HasPrefix_length: "HasPrefix s p \<Longrightarrow> length p \<le> length s"
  by (induction s p rule: HasPrefix.induct) auto

lemma Index_bound: "Index s sub \<ge> 0 \<Longrightarrow> nat (Index s sub) + length sub \<le> length s"
proof (induction s)
  case Nil
  then show ?case using HasPrefix_length [of "[]" sub] by (auto split: if_splits)
next
  case (Cons c cs)
  show ?case
  proof (cases "HasPrefix (c # cs) sub")
    case True
    then show ?thesis using HasPrefix_length [of "c # cs" sub] by simp
  next
    case False
    with Cons.prems have nn: "Index cs sub \<ge> 0"
      by (auto simp: Let_def split: if_splits)
    with False have "Index (c # cs) sub = Index cs sub + 1"
      by (simp add: Let_def)
    with Cons.IH [OF nn] nn show ?thesis by (simp add: nat_add_distrib)
  qed
qed

lemma Index_ge_minus1: "Index s sub \<ge> - 1"
  by (induction s) (auto simp: Let_def)

lemma genSplit_loop_nonempty: "genSplit_loop k s sep \<noteq> []"
  by (cases k) (auto simp: Let_def)

lemma genSplit_loop_length: "length (genSplit_loop k s sep) \<ge> 1"
  using genSplit_loop_nonempty [of k s sep] by (cases "genSplit_loop k s sep") auto

lemma genSplit_loop_Suc_found:
  "Index s sep \<ge> 0 \<Longrightarrow> length (genSplit_loop (Suc k) s sep) \<ge> 2"
  using genSplit_loop_length [of k "drop (nat (Index s sep) + length sep) s" sep]
  by (simp add: Let_def)

lemma Contains_nonempty: "Contains s sep \<Longrightarrow> sep \<noteq> [] \<Longrightarrow> length s \<ge> 1"
  using Index_bound [of s sep] by (cases sep) (auto simp: Contains_def)

lemma SplitN_2_found:
  assumes "Contains s sep" "sep \<noteq> []"
  shows "SplitN s sep 2 = [take (nat (Index s sep)) s, drop (nat (Index s sep) + length sep) s]"
proof -
  have "length s \<ge> 1" using assms by (rule Contains_nonempty)
  then have "s \<noteq> []" by auto
  then have "genSplit s sep 2 = genSplit_loop (Suc 0) s sep"
    using assms(2) by (simp add: genSplit_def)
  then show ?thesis using assms(1) by (simp add: SplitN_def Contains_def Let_def)
qed

lemma SplitN_2_nonempty: "sep \<noteq> [] \<Longrightarrow> SplitN s sep 2 \<noteq> []"
  by (simp add: SplitN_def genSplit_def Let_def genSplit_loop_nonempty)

lemma Split_nonempty: "sep \<noteq> [] \<Longrightarrow> Split s sep \<noteq> []"
  by (simp add: Split_def genSplit_def Let_def genSplit_loop_nonempty)

lemma Count_found: "Contains s sep \<Longrightarrow> sep \<noteq> [] \<Longrightarrow> Count s sep \<ge> 1"
  using Contains_nonempty [of s sep]
  by (cases "length s") (auto simp: Count_def Contains_def Let_def)

lemma Split_found_length:
  assumes "Contains s sep" "sep \<noteq> []"
  shows "length (Split s sep) \<ge> 2"
proof -
  have l: "length s \<ge> 1" using assms by (rule Contains_nonempty)
  have c: "Count s sep \<ge> 1" using assms by (rule Count_found)
  define n2 where "n2 = (if Count s sep + 1 > length s + 1 then length s + 1 else Count s sep + 1)"
  have "n2 \<ge> 2" using l c by (simp add: n2_def)
  then obtain k where k: "n2 - 1 = Suc k" by (cases "n2 - 1") auto
  have "Split s sep = genSplit_loop (n2 - 1) s sep"
    using assms(2) by (simp add: Split_def genSplit_def n2_def Let_def)
  then show ?thesis using genSplit_loop_Suc_found [of s sep k] assms(1) k
    by (simp add: Contains_def)
qed


lemma genSplit_loop_not_found: "Index s sep < 0 \<Longrightarrow> genSplit_loop k s sep = [s]"
  by (cases k) (auto simp: Let_def)

lemma Index_single:
  "Index s [c] = (if c \<in> set s then int (length (takeWhile (\<lambda>x. x \<noteq> c) s)) else - 1)"
  by (induction s) (auto simp: Let_def)

lemma SplitN_comma_first:
  "index (SplitN s '','' 2) 0 = Inr (takeWhile (\<lambda>x. x \<noteq> CHR '','') s)"
proof (cases "CHR '','' \<in> set s")
  case True
  then have "Contains s '',''" by (simp add: Contains_def Index_single)
  then have "SplitN s '','' 2 =
      [take (nat (Index s '','')) s, drop (nat (Index s '','') + length '','') s]"
    by (intro SplitN_2_found) simp_all
  moreover have "take (length (takeWhile (\<lambda>x. x \<noteq> CHR '','') s)) s =
      takeWhile (\<lambda>x. x \<noteq> CHR '','') s"
    by (rule takeWhile_eq_take [symmetric])
  ultimately show ?thesis using True
    by (simp add: index_def Index_single)
next
  case False
  then have nf: "Index s '','' < 0" by (simp add: Index_single)
  have \<open>SplitN s '','' 2 = [s]\<close>
    by (simp add: SplitN_def genSplit_def Let_def genSplit_loop_not_found [OF nf])
  have tw: "takeWhile (\<lambda>x. x \<noteq> CHR '','') s = s"
    using False by (induction s) auto
  show ?thesis unfolding tw \<open>SplitN s '','' 2 = [s]\<close> by (simp add: index_def)
qed

lemma parseStruct_minLength_found:
  assumes "Contains s ''minLength=''"
  shows "parseStruct_minLength s f =
     Inr (case Atoi (option_text ''minLength='' s) of
            Inr v \<Rightarrow> f\<lparr>MinLength := Some v\<rparr> | Inl err \<Rightarrow> f)"
proof -
  have "SplitN s ''minLength='' 2 =
      [take (nat (Index s ''minLength='')) s,
       drop (nat (Index s ''minLength='') + length ''minLength='') s]"
    using assms by (intro SplitN_2_found) simp_all
  then have "index (SplitN s ''minLength='' 2) 1 =
      Inr (drop (nat (Index s ''minLength='') + length ''minLength='') s)"
    by (simp add: index_def)
  then show ?thesis using assms
    by (simp add: parseStruct_minLength_def SplitN_comma_first option_text_def
        split: sum.splits)
qed

lemma parseStruct_minLength_absent:
  "\<not> Contains s ''minLength='' \<Longrightarrow> parseStruct_minLength s f = Inr f"
  by (simp add: parseStruct_minLength_def)

lemma parseStruct_format_total: "\<exists>fmt. parseStruct_format s f = Inr (f\<lparr>Format := fmt\<rparr>)"
proof (cases "Contains s ''format=''")
  case True
  then have "length (Split s ''format='') \<ge> 2" by (intro Split_found_length) simp_all
  then obtain x where x: "index (Split s ''format='') 1 = Inr x"
    by (auto simp: index_def)
  have "Split x '','' \<noteq> []" by (intro Split_nonempty) simp
  then obtain y where "index (Split x '','') 0 = Inr y" by (auto simp: index_def)
  then show ?thesis using True x by (auto simp: parseStruct_format_def)
next
  case False
  then have "parseStruct_format s f = Inr (f\<lparr>Format := Format f\<rparr>)"
    by (simp add: parseStruct_format_def)
  then show ?thesis by blast
qed


lemma parseStruct_minLength_total:
  assumes "MinLength f = None"
  shows "parseStruct_minLength s f = Inr (f\<lparr>MinLength := minLength_of s\<rparr>)"
proof (cases "Contains s ''minLength=''")
  case True
  then show ?thesis using assms
    by (cases "Atoi (option_text ''minLength='' s)")
      (simp_all add: parseStruct_minLength_found minLength_of_def)
next
  case False
  then show ?thesis using assms
    by (simp add: parseStruct_minLength_absent minLength_of_def)
qed

lemma parseStruct_body_no_tag: "Tag fld = None \<Longrightarrow> parseStruct_body fld = Inr None"
  by (simp add: parseStruct_body_def)

lemma parseStruct_body_dash:
  "Tag fld = Some t \<Longrightarrow> lookup (parseFieldTags t) ''json'' = ''-'' \<Longrightarrow>
   parseStruct_body fld = Inr None"
  by (simp add: parseStruct_body_def)

lemma parseStruct_body_entry:
  assumes t: "Tag fld = Some t" and j: "lookup (parseFieldTags t) ''json'' \<noteq> ''-''"
  shows "\<exists>fmt. parseStruct_body fld =
     Inr (Some \<lparr>Name = lookup (parseFieldTags t) ''json'',
                Type = getFieldType (FieldType fld),
                Required = Contains (lookup (parseFieldTags t) ''schema'') ''required'',
                MinLength = minLength_of (lookup (parseFieldTags t) ''schema''),
                Format = fmt, Description = []\<rparr>)"
proof -
  let ?s = "lookup (parseFieldTags t) ''schema''"
  let ?f0 = "\<lparr>Name = lookup (parseFieldTags t) ''json'',
                Type = getFieldType (FieldType fld),
                Required = Contains ?s ''required'',
                MinLength = None, Format = [], Description = []\<rparr>"
  let ?f1 = "?f0\<lparr>MinLength := minLength_of ?s\<rparr>"
  have m: "parseStruct_minLength ?s ?f0 = Inr ?f1"
    by (rule parseStruct_minLength_total) simp
  obtain fmt where fmt: "parseStruct_format ?s ?f1 = Inr (?f1\<lparr>Format := fmt\<rparr>)"
    using parseStruct_format_total by blast
  have "parseStruct_body fld = Inr (Some (?f1\<lparr>Format := fmt\<rparr>))"
    using t j fmt by (simp add: parseStruct_body_def Let_def m)
  then show ?thesis by auto
qed

lemma parseStruct_body_total: "\<exists>r. parseStruct_body fld = Inr r"
proof (cases "Tag fld")
  case None
  then show ?thesis by (simp add: parseStruct_body_no_tag)
next
  case (Some t)
  then show ?thesis
    using parseStruct_body_dash [of fld t] parseStruct_body_entry [of fld t] by blast
qed

lemma parseStruct_body_Type:
  assumes "parseStruct_body fld = Inr (Some entry)"
  shows "Type entry = getFieldType (FieldType fld)"
proof (cases "Tag fld")
  case None
  then show ?thesis using assms by (simp add: parseStruct_body_no_tag)
next
  case (Some t)
  show ?thesis
  proof (cases "lookup (parseFieldTags t) ''json'' = ''-''")
    case True
    then show ?thesis using assms Some by (simp add: parseStruct_body_dash)
  next
    case False
    from parseStruct_body_entry [OF Some False] assms show ?thesis by auto
  qed
qed

section \<open>Properties of \<open>parseStruct\<close> and of the template\<close>

lemma parseStruct_range_Fields:
  "parseStruct_range flds schema =
     Inr (schema\<lparr>Fields := Fields schema @ concat (map entries_of flds)\<rparr>)"
proof (induction flds arbitrary: schema)
  case Nil
  then show ?case by simp
next
  case (Cons fld rest)
  obtain r where r: "parseStruct_body fld = Inr r"
    using parseStruct_body_total by blast
  show ?case
  proof (cases r)
    case None
    with r show ?thesis by (simp add: Cons.IH entries_of_def)
  next
    case (Some entry)
    with r show ?thesis by (simp add: Cons.IH entries_of_def)
  qed
qed

lemma parseStruct_Fields:
  "parseStruct typeName flds =
     Inr \<lparr>TypeName = typeName, Fields = concat (map entries_of flds)\<rparr>"
  by (simp add: parseStruct_def parseStruct_range_Fields)

lemma entries_of_skip: "\<not> taggable fld \<Longrightarrow> entries_of fld = []"
proof -
  assume "\<not> taggable fld"
  then have "parseStruct_body fld = Inr None"
    by (auto simp: taggable_def parseStruct_body_no_tag parseStruct_body_dash
        split: option.splits)
  then show ?thesis by (simp add: entries_of_def)
qed

lemma entries_of_taggable:
  "taggable fld \<Longrightarrow> \<exists>entry. parseStruct_body fld = Inr (Some entry) \<and> entries_of fld = [entry]"
proof -
  assume "taggable fld"
  then obtain t where "Tag fld = Some t" "lookup (parseFieldTags t) ''json'' \<noteq> ''-''"
    by (auto simp: taggable_def split: option.splits)
  from parseStruct_body_entry [OF this] obtain entry
    where "parseStruct_body fld = Inr (Some entry)" by blast
  then show ?thesis by (simp add: entries_of_def)
qed

lemma entries_filter_taggable:
  "map (\<lambda>entry. Inr (Some entry)) (concat (map entries_of flds)) =
     map parseStruct_body (filter taggable flds)"
proof (induction flds)
  case Nil
  then show ?case by simp
next
  case (Cons fld rest)
  show ?case
  proof (cases "taggable fld")
    case True
    from entries_of_taggable [OF True] Cons.IH True show ?thesis by auto
  next
    case False
    from entries_of_skip [OF False] Cons.IH False show ?thesis by simp
  qed
qed

lemma entries_length:
  "length (concat (map entries_of flds)) = length (filter taggable flds)"
  using entries_filter_taggable [of flds, THEN arg_cong, of length] by simp

lemma Execute_range_append:
  "Execute_range i (xs @ ys) = Execute_range i xs @ Execute_range (i + length xs) ys"
  by (induction xs arbitrary: i) simp_all

lemma Execute_range_enumerate:
  "Execute_range i fs = concat (map (\<lambda>(k, f). Execute_field k f) (enumerate i fs))"
  by (induction fs arbitrary: i) simp_all

lemma entries_of_Name: "map Name (entries_of fld) = (if taggable fld then [json_name fld] else [])"
proof (cases "taggable fld")
  case True
  then obtain t where t: "Tag fld = Some t" "lookup (parseFieldTags t) ''json'' \<noteq> ''-''"
    by (auto simp: taggable_def split: option.splits)
  from parseStruct_body_entry [OF this] t(1) True show ?thesis
    by (auto simp: entries_of_def json_name_def)
next
  case False
  then show ?thesis by (simp add: entries_of_skip)
qed

lemma entries_names:
  "map Name (concat (map entries_of flds)) = map json_name (filter taggable flds)"
  by (induction flds) (simp_all add: entries_of_Name)

section \<open>Properties of the traversal\<close>

lemma main_inspect_nil: "main_inspect typeName None (Inr s) = (True, Inr s)"
  by (simp add: main_inspect_def)

lemma main_inspect_other:
  "\<not> is_struct_decl typeName n \<Longrightarrow> main_inspect typeName (Some n) (Inr s) = (True, Inr s)"
  by (auto simp: main_inspect_def is_struct_decl_def split: node.splits)

lemma fold_unchanged: "(\<And>c. c \<in> set cs \<Longrightarrow> f c s = s) \<Longrightarrow> fold f cs s = s"
  by (induction cs) simp_all

lemma set_nodes_of:
  "set (nodes_of n) = insert n (\<Union>c \<in> set (children n). set (nodes_of c))"
  by (subst nodes_of.simps) simp

lemma declares_struct_child:
  "c \<in> set (children n) \<Longrightarrow> declares_struct typeName c \<Longrightarrow> declares_struct typeName n"
  unfolding declares_struct_def list_ex_iff
  using set_nodes_of [of n] by blast

lemma declares_struct_self: "is_struct_decl typeName n \<Longrightarrow> declares_struct typeName n"
  unfolding declares_struct_def list_ex_iff
  using set_nodes_of [of n] by blast

lemma Inspect_not_declared:
  "\<not> declares_struct typeName n \<Longrightarrow> Inspect (main_inspect typeName) n (Inr s) = Inr s"
proof (induction n rule: nodes_of.induct)
  case (1 n)
  have self: "\<not> is_struct_decl typeName n"
    using "1.prems" declares_struct_self by blast
  have kids: "\<And>c. c \<in> set (children n) \<Longrightarrow> Inspect (main_inspect typeName) c (Inr s) = Inr s"
    using "1.IH" "1.prems" declares_struct_child by blast
  have "fold (Inspect (main_inspect typeName)) (children n) (Inr s) = Inr s"
    using kids by (rule fold_unchanged)
  then show ?case
    by (subst Inspect.simps) (simp add: main_inspect_other [OF self] main_inspect_nil)
qed

lemma minLength_examples:
  \<open>parseStruct_body (minLength_field ''3'') =
     Inr (Some \<lparr>Name = ''x'', Type = ''string'', Required = False,
                MinLength = Some 3, Format = [], Description = []\<rparr>) \<and>
   Execute_field 0 \<lparr>Name = ''x'', Type = ''string'', Required = False,
                MinLength = Some 3, Format = [], Description = []\<rparr> =
     ''\<newline>        \<newline>        "x": {\<newline>            "type": "string",\<newline>            "minLength": 3\<newline>        }'' \<and>
   parseStruct_body (minLength_field ''abc'') =
     Inr (Some \<lparr>Name = ''x'', Type = ''string'', Required = False,
                MinLength = None, Format = [], Description = []\<rparr>) \<and>
   Execute_field 0 \<lparr>Name = ''x'', Type = ''string'', Required = False,
                MinLength = None, Format = [], Description = []\<rparr> =
     ''\<newline>        \<newline>        "x": {\<newline>            "type": "string"\<newline>        }''\<close>
  by code_simp

section \<open>Properties of \<open>generateSchemaFile\<close> and of the walk on declarations\<close>

lemma Sprintln_confirmation:
  \<open>Sprintln [''Schema file generated successfully\<newline>'', ''FileName: '', outputFile] =
   confirmation outputFile\<close>
  by (simp add: Sprintln_def confirmation_def)

lemma generateSchemaFile_events:
  "generateSchemaFile e schema =
     ([Stdout (confirmation (outputFile_of e schema)),
       WriteFile (outputFile_of e schema) (output_of schema) perm_0644
         (os_WriteFile e (outputFile_of e schema) (output_of schema) perm_0644)],
      os_WriteFile e (outputFile_of e schema) (output_of schema) perm_0644)"
  by (simp add: generateSchemaFile_def Execute_def Let_def outputFile_of_def output_of_def
      Sprintln_confirmation)

lemma lowerByte_unchanged: "\<not> list_ex isUpper s \<Longrightarrow> map lowerByte s = s"
  by (induction s) (simp_all add: lowerByte_def)

lemma ToLower_ASCII: "isASCII s \<Longrightarrow> ToLower u s = map lowerByte s"
  by (simp add: ToLower_def lowerByte_unchanged)

lemma perm_0644_bits:
  "readable perm_0644 Owner \<and> writable perm_0644 Owner \<and> \<not> executable perm_0644 Owner \<and>
   readable perm_0644 Group \<and> \<not> writable perm_0644 Group \<and> \<not> executable perm_0644 Group \<and>
   readable perm_0644 Others \<and> \<not> writable perm_0644 Others \<and> \<not> executable perm_0644 Others"
  by (simp add: readable_def writable_def executable_def perm_digit_def perm_0644_def)

lemma main_inspect_panicked: "main_inspect typeName n (Inl e) = (False, Inl e)"
  by (simp add: main_inspect_def)

lemma Inspect_descend:
  "\<not> is_struct_decl typeName n \<Longrightarrow>
   Inspect (main_inspect typeName) n (Inr s) =
     fold (Inspect (main_inspect typeName)) (children n) (Inr s)"
proof -
  assume n: "\<not> is_struct_decl typeName n"
  obtain r where r: "fold (Inspect (main_inspect typeName)) (children n) (Inr s) = r" by simp
  show ?thesis
  proof (cases r)
    case (Inl e)
    with r show ?thesis
      by (subst Inspect.simps) (simp add: main_inspect_other [OF n] main_inspect_panicked)
  next
    case (Inr x)
    with r show ?thesis
      by (subst Inspect.simps) (simp add: main_inspect_other [OF n] main_inspect_nil)
  qed
qed

lemma Inspect_struct_decl:
  "Inspect (main_inspect typeName) (TypeSpec typeName (StructType fieldList)) (Inr s) =
     Inr (Some \<lparr>TypeName = typeName, Fields = concat (map entries_of fieldList)\<rparr>)"
  by (subst Inspect.simps) (simp add: main_inspect_def parseStruct_Fields)

lemma entries_a: \<open>entries_of (Field [''A''] (Ident ''int'') (Some ''`json:"a"`'')) =
   [\<lparr>Name = ''a'', Type = ''integer'', Required = False,
                     MinLength = None, Format = [], Description = []\<rparr>]\<close>
  by code_simp

lemma entries_b: \<open>entries_of (Field [''B''] (Ident ''string'') (Some ''`json:"b"`'')) =
   [\<lparr>Name = ''b'', Type = ''string'', Required = False,
                     MinLength = None, Format = [], Description = []\<rparr>]\<close>
  by code_simp

lemma parseStruct_without_skipped:
  assumes "case Tag fld of None \<Rightarrow> True
           | Some tagValue \<Rightarrow> lookup (parseFieldTags tagValue) ''json'' = ''-''"
  shows "parseStruct_body fld = Inr None \<and>
         parseStruct typeName (before @ fld # after) = parseStruct typeName (before @ after)"
proof -
  from assms have "\<not> taggable fld"
    by (auto simp: taggable_def split: option.splits)
  then have "entries_of fld = []" by (rule entries_of_skip)
  moreover from assms have "parseStruct_body fld = Inr None"
    by (auto simp: parseStruct_body_no_tag parseStruct_body_dash split: option.splits)
  ultimately show ?thesis by (simp add: parseStruct_Fields)
qed

lemma entries_in_declaration_order:
  "\<exists>schema. parseStruct typeName flds = Inr schema \<and>
     TypeName schema = typeName \<and>
     length (Fields schema) = length (filter taggable flds) \<and>
     map (\<lambda>entry. Inr (Some entry)) (Fields schema) =
       map parseStruct_body (filter taggable flds) \<and>
     map Name (Fields schema) = map json_name (filter taggable flds) \<and>
     Execute schema =
       Inr (Execute_header typeName @
            concat (map (\<lambda>(k, entry). Execute_field k entry) (enumerate 0 (Fields schema))) @
            Execute_footer)"
  by (simp add: parseStruct_Fields entries_length entries_filter_taggable entries_names
      Execute_def Execute_range_enumerate)

section \<open>Tags written as pairs separated by single spaces\<close>

lemma Index_found_at:
  "c \<notin> set t \<Longrightarrow> Index (t @ c # rest) [c] = int (length t)"
  by (induction t) (auto simp: Let_def)

lemma genSplit_loop_Join:
  assumes "\<forall>t \<in> set (a # ts). c \<notin> set t" and "length ts \<le> k"
  shows "genSplit_loop k (Join (a # ts) [c]) [c] = a # ts"
  using assms
proof (induction ts arbitrary: a k)
  case Nil
  then have "Index a [c] < 0" by (simp add: Index_single)
  then show ?case by (simp add: genSplit_loop_not_found)
next
  case (Cons b ts)
  from Cons.prems(2) obtain k' where k: "k = Suc k'" and le: "length ts \<le> k'"
    by (cases k) auto
  have a: "c \<notin> set a" using Cons.prems(1) by simp
  have i: "Index (a @ c # Join (b # ts) [c]) [c] = int (length a)"
    using a by (rule Index_found_at)
  have r: "genSplit_loop k' (Join (b # ts) [c]) [c] = b # ts"
    using Cons.prems(1) le by (intro Cons.IH) auto
  show ?case unfolding k by (simp add: i r)
qed

lemma Count_from_Join:
  assumes "\<forall>t \<in> set (a # ts). c \<notin> set t" and "length ts \<le> k"
  shows "Count_from k (Join (a # ts) [c]) [c] = length ts"
  using assms
proof (induction ts arbitrary: a k)
  case Nil
  then have "Index a [c] < 0" by (simp add: Index_single)
  then show ?case by (cases k) (simp_all add: Let_def)
next
  case (Cons b ts)
  from Cons.prems(2) obtain k' where k: "k = Suc k'" and le: "length ts \<le> k'"
    by (cases k) auto
  have a: "c \<notin> set a" using Cons.prems(1) by simp
  have i: "Index (a @ c # Join (b # ts) [c]) [c] = int (length a)"
    using a by (rule Index_found_at)
  have r: "Count_from k' (Join (b # ts) [c]) [c] = length ts"
    using Cons.prems(1) le by (intro Cons.IH) auto
  show ?case unfolding k by (simp add: i r)
qed

lemma length_Join: "length ts \<le> length (Join (a # ts) [c])"
proof (induction ts arbitrary: a)
  case Nil
  then show ?case by simp
next
  case (Cons b ts)
  have "length ts \<le> length (Join (b # ts) [c])" by (rule Cons.IH)
  then show ?case by simp
qed

lemma Split_Join:
  assumes "\<forall>t \<in> set (a # ts). c \<notin> set t"
  shows "Split (Join (a # ts) [c]) [c] = a # ts"
proof -
  let ?s = "Join (a # ts) [c]"
  have l: "length ts \<le> length ?s" by (rule length_Join)
  have n: "Count ?s [c] = length ts"
    using Count_from_Join [OF assms l] by (simp add: Count_def)
  have "Split ?s [c] = genSplit_loop (length ts) ?s [c]"
    using l by (simp add: Split_def genSplit_def n Let_def)
  then show ?thesis using genSplit_loop_Join [OF assms, of "length ts"] by simp
qed

lemma Trim_delimited:
  assumes "c \<notin> set s"
  shows "Trim (c # s @ [c]) [c] = s"
proof (cases s)
  case Nil
  then show ?thesis by (simp add: Trim_def)
next
  case (Cons x xs)
  have 1: "dropWhile (\<lambda>y. y \<in> set [c]) (c # s @ [c]) = s @ [c]"
    using assms Cons by auto
  have "rev s \<noteq> []" using Cons by simp
  then obtain y ys where r: "rev s = y # ys" by (cases "rev s") auto
  then have "y \<in> set s" by (metis list.set_intros(1) set_rev)
  then have "y \<noteq> c" using assms by auto
  then have 2: "dropWhile (\<lambda>y. y \<in> set [c]) (c # rev s) = rev s"
    using r by simp
  show ?thesis unfolding Trim_def 1 using 2 by simp
qed


lemma plain_pair_token:
  assumes "plain k" and "plain v"
  shows "CHR '' '' \<notin> set (pair_token (k, v))" and "CHR 0x60 \<notin> set (pair_token (k, v))"
  using assms by (auto simp: plain_def pair_token_def)

lemma Split_pair_token:
  assumes "plain k" and "plain v"
  shows \<open>Split (pair_token (k, v)) '':'' = [k, ''"'' @ v @ ''"'']\<close>
proof -
  have \<open>\<forall>t \<in> set (k # [''"'' @ v @ ''"'']). CHR '':'' \<notin> set t\<close>
    using assms by (auto simp: plain_def)
  from Split_Join [OF this] show ?thesis by (simp add: pair_token_def)
qed

lemma Trim_quoted: "plain v \<Longrightarrow> Trim (CHR 0x22 # v @ [CHR 0x22]) [CHR 0x22] = v"
  using Trim_delimited [of "CHR 0x22" v] by (simp add: plain_def)

lemma parseFieldTags_range_pairs:
  assumes "distinct (map fst pairs)" and "\<forall>p \<in> set pairs. plain (fst p) \<and> plain (snd p)"
  shows "parseFieldTags_range (map pair_token pairs) tags = tags ++ map_of pairs"
  using assms
proof (induction pairs arbitrary: tags)
  case Nil
  then show ?case by simp
next
  case (Cons p ps)
  obtain k v where p: "p = (k, v)" by (cases p)
  have pl: "plain k" "plain v" using Cons.prems(2) p by auto
  have nd: "k \<notin> dom (map_of ps)"
    using Cons.prems(1) p by (auto simp: dom_map_of_conv_image_fst)
  have "parseFieldTags_range (map pair_token (p # ps)) tags =
        parseFieldTags_range (map pair_token ps) (tags(k \<mapsto> v))"
    by (simp add: p Split_pair_token [OF pl] Trim_quoted [OF pl(2)])
  also have "\<dots> = tags(k \<mapsto> v) ++ map_of ps"
    using Cons.prems by (intro Cons.IH) auto
  also have "\<dots> = tags ++ map_of (p # ps)"
    using nd by (simp add: p map_add_upd_left)
  finally show ?case .
qed

lemma set_Join: "set (Join ts sep) \<subseteq> (\<Union>t \<in> set ts. set t) \<union> set sep"
  by (induction ts sep rule: Join.induct) auto

lemma parseFieldTags_tag_literal:
  assumes "distinct (map fst pairs)" and "\<forall>p \<in> set pairs. plain (fst p) \<and> plain (snd p)"
  shows "parseFieldTags (tag_literal pairs) = map_of pairs"
proof (cases pairs)
  case Nil
  have "parseFieldTags ''``'' = Map.empty"
    by (simp add: parseFieldTags_def Trim_def Split_def genSplit_def Count_def)
  then show ?thesis using Nil by (simp add: tag_literal_def)
next
  case (Cons p ps)
  let ?tokens = "map pair_token pairs"
  have sp: "\<forall>t \<in> set ?tokens. CHR '' '' \<notin> set t"
    using assms(2) plain_pair_token(1) by (metis (no_types, lifting) imageE list.set_map prod.collapse)
  have bq: "\<forall>t \<in> set ?tokens. CHR 0x60 \<notin> set t"
    using assms(2) plain_pair_token(2) by (metis (no_types, lifting) imageE list.set_map prod.collapse)
  have tk: "?tokens = pair_token p # map pair_token ps" using Cons by simp
  have nb: "CHR 0x60 \<notin> set (Join ?tokens '' '')"
    using bq set_Join [of ?tokens "'' ''"] by auto
  have t: "Trim (tag_literal pairs) ''`'' = Join ?tokens '' ''"
    using Trim_delimited [OF nb] by (simp add: tag_literal_def)
  have s: "Split (Join ?tokens '' '') '' '' = ?tokens"
    using Split_Join [of "pair_token p" "map pair_token ps" "CHR '' ''"] sp
    unfolding tk by simp
  show ?thesis
    unfolding parseFieldTags_def t s
    using parseFieldTags_range_pairs [OF assms, of Map.empty] by simp
qed

lemma parseFieldTags_well_formed:
  "well_formed_tag pairs \<Longrightarrow> parseFieldTags (tag_literal pairs) = map_of pairs"
  by (rule parseFieldTags_tag_literal) (auto simp: well_formed_tag_def list_all_iff)

lemma well_formed_json_dash:
  "well_formed_tag pairs \<Longrightarrow>
   (lookup (parseFieldTags (tag_literal pairs)) ''json'' = ''-'') = ((''json'', ''-'') \<in> set pairs)"
  by (auto simp: parseFieldTags_well_formed lookup_def well_formed_tag_def
      dest: eq_key_imp_eq_value split: option.splits)

lemma taggable_decl_field:
  "well_formed_decl d \<Longrightarrow> taggable (decl_field d) = emitted d"
  by (cases d)
    (auto simp: well_formed_decl_def decl_field_def taggable_def emitted_def
      well_formed_json_dash split: option.splits)

lemma json_name_decl_field:
  "well_formed_decl d \<Longrightarrow> json_name (decl_field d) = property_name d"
  by (cases d)
    (auto simp: well_formed_decl_def decl_field_def json_name_def property_name_def
      parseFieldTags_well_formed lookup_def split: option.splits)

lemma filter_taggable_decls:
  "list_all well_formed_decl decls \<Longrightarrow>
   filter taggable (map decl_field decls) = map decl_field (filter emitted decls)"
  by (induction decls) (simp_all add: taggable_decl_field)

lemma entries_of_cases:
  "entries_of fld = [] \<or>
   (\<exists>entry. entries_of fld = [entry] \<and> Description entry = [] \<and>
      Type entry = getFieldType (FieldType fld))"
proof (cases "taggable fld")
  case True
  then obtain t where t: "Tag fld = Some t" "lookup (parseFieldTags t) ''json'' \<noteq> ''-''"
    by (auto simp: taggable_def split: option.splits)
  from parseStruct_body_entry [OF this] show ?thesis by (auto simp: entries_of_def)
next
  case False
  then show ?thesis by (simp add: entries_of_skip)
qed

lemma entries_Description:
  assumes "entry \<in> set (concat (map entries_of flds))"
  shows "Description entry = []"
proof -
  from assms obtain fld where "entry \<in> set (entries_of fld)" by auto
  then show ?thesis using entries_of_cases [of fld] by auto
qed

lemma entries_of_Type:
  "map Type (entries_of fld) = (if taggable fld then [getFieldType (FieldType fld)] else [])"
proof (cases "taggable fld")
  case True
  from entries_of_taggable [OF True] entries_of_cases [of fld] True show ?thesis by auto
next
  case False
  then show ?thesis by (simp add: entries_of_skip)
qed

lemma entries_types:
  "map Type (concat (map entries_of flds)) =
     map (\<lambda>fld. getFieldType (FieldType fld)) (filter taggable flds)"
  by (induction flds) (simp_all add: entries_of_Type)

lemma Execute_field_text:
  assumes "Description entry = []"
  shows \<open>Execute_field k entry =
       ''\<newline>        '' @ (if k \<noteq> 0 then '','' else []) @
       ''\<newline>        "'' @ Name entry @ ''": {\<newline>            "type": "'' @ Type entry @ ''"'' @
       (if Required entry then '',\<newline>            "required": true'' else []) @
       (case MinLength entry of
          None \<Rightarrow> []
        | Some v \<Rightarrow> '',\<newline>            "minLength": '' @ Itoa v) @
       (if Format entry \<noteq> [] then '',\<newline>            "format": "'' @ Format entry @ ''"''
        else []) @
       ''\<newline>        }''\<close>
  using assms by (simp add: Execute_field_def)

lemma enumerate_member: "(k, e) \<in> set (enumerate n xs) \<Longrightarrow> e \<in> set xs"
  by (auto simp: enumerate_eq_zip dest: set_zip_rightD)

section \<open>The claims\<close>

text \<open>
  C1. Running the generator on the example structure of the specification with the type
  name \<open>User\<close> gives a properties object with exactly the four members \<open>id\<close>,
  \<open>name\<close>, \<open>email\<close> and \<open>isActive\<close>, in this order: \<open>id\<close> has the type
  \<open>integer\<close> and \<open>required\<close> and no \<open>minLength\<close> (the option \<open>min=1\<close> is not
  \<open>minLength=\<close>), \<open>email\<close> has the type \<open>string\<close>, \<open>required\<close> and the format
  \<open>email\<close>, \<open>isActive\<close> has the type \<open>boolean\<close> and no \<open>required\<close>. The whole
  run writes this text to \<open>user.schema.json\<close>.
\<close>

theorem User_example_generated:
  \<open>parseStruct ''User'' User_example = Inr User_example_schema \<and>
   Execute User_example_schema = Inr User_example_output \<and>
   main User_example_env ''User'' [''user.go''] =
     ([Stdout ''Schema file generated successfully\<newline> FileName:  user.schema.json\<newline>'',
       WriteFile ''user.schema.json'' User_example_output perm_0644 None], 0)\<close>
  by code_simp

text \<open>
  C6. The schema type inferred for a field is \<open>integer\<close> for the declared types
  \<open>int\<close>, \<open>int32\<close> and \<open>int64\<close>, \<open>number\<close> for \<open>float32\<close> and \<open>float64\<close>,
  \<open>boolean\<close> for \<open>bool\<close>, and \<open>string\<close> for \<open>string\<close> and for every other type
  expression, slices, maps, pointers and nested structures among them; it is the type of
  the entry that \<open>parseStruct\<close> makes for the field.
\<close>

theorem getFieldType_inferred:
  "getFieldType expr =
     (if expr = Ident ''int'' \<or> expr = Ident ''int32'' \<or> expr = Ident ''int64'' then ''integer''
      else if expr = Ident ''float32'' \<or> expr = Ident ''float64'' then ''number''
      else if expr = Ident ''bool'' then ''boolean''
      else ''string'') \<and>
   getFieldType (Ident ''string'') = ''string'' \<and>
   getFieldType (ArrayType len elt) = ''string'' \<and>
   getFieldType (MapType k v) = ''string'' \<and>
   getFieldType (StarExpr x) = ''string'' \<and>
   getFieldType (StructType fs) = ''string'' \<and>
   (parseStruct_body fld = Inr (Some entry) \<longrightarrow> Type entry = getFieldType (FieldType fld))"
proof -
  have "getFieldType expr =
     (if expr = Ident ''int'' \<or> expr = Ident ''int32'' \<or> expr = Ident ''int64'' then ''integer''
      else if expr = Ident ''float32'' \<or> expr = Ident ''float64'' then ''number''
      else if expr = Ident ''bool'' then ''boolean''
      else ''string'')"
    by (cases expr) (simp_all add: getFieldType_def)
  then show ?thesis
    using parseStruct_body_Type [of fld entry] by (simp add: getFieldType_def)
qed

theorem getFieldType_inferred_witness:
  \<open>parseStruct_body (Field [''ID''] (Ident ''int'') (Some ''`json:"id"`'')) =
     Inr (Some \<lparr>Name = ''id'', Type = ''integer'', Required = False,
                MinLength = None, Format = [], Description = []\<rparr>) \<and>
   Type \<lparr>Name = ''id'', Type = ''integer'', Required = False,
         MinLength = None, Format = [], Description = []\<rparr> =
     getFieldType (FieldType (Field [''ID''] (Ident ''int'') (Some ''`json:"id"`'')))\<close>
proof -
  let ?F = \<open>Field [''ID''] (Ident ''int'') (Some ''`json:"id"`'')\<close>
  let ?E = "\<lparr>Name = ''id'', Type = ''integer'', Required = False,
                MinLength = None, Format = [], Description = []\<rparr>"
  have b: "parseStruct_body ?F = Inr (Some ?E)"
    by code_simp
  have "parseStruct_body ?F = Inr (Some ?E) \<longrightarrow> Type ?E = getFieldType (FieldType ?F)"
    using getFieldType_inferred [of "Ident ''int''" None "Ident ''int''" "Ident ''a''"
        "Ident ''b''" "Ident ''c''" "[]" ?F ?E]
    by blast
  with b show ?thesis by blast
qed

text \<open>
  C9. A field that has a tag with no \<open>json\<close> key still gets an entry, whose name is the
  empty string; the rendered properties object has, at the place of the field, a member
  whose key is the empty string.
\<close>

theorem missing_json_key_empty_name:
  assumes "Tag fld = Some t" and "parseFieldTags t ''json'' = None"
  shows \<open>\<exists>entry pre post.
     parseStruct_body fld = Inr (Some entry) \<and> Name entry = [] \<and>
     map (\<lambda>e. Inr (Some e)) pre = map parseStruct_body (filter taggable before) \<and>
     map (\<lambda>e. Inr (Some e)) post = map parseStruct_body (filter taggable after) \<and>
     parseStruct typeName (before @ fld # after) =
       Inr \<lparr>TypeName = typeName, Fields = pre @ entry # post\<rparr> \<and>
     Execute \<lparr>TypeName = typeName, Fields = pre @ entry # post\<rparr> =
       Inr (Execute_header typeName @ Execute_range 0 pre @
            Execute_field (length pre) entry @
            Execute_range (Suc (length pre)) post @ Execute_footer) \<and>
     (\<exists>rest. Execute_field (length pre) entry =
        ''\<newline>        '' @ (if length pre \<noteq> 0 then '','' else []) @
        ''\<newline>        "": {'' @ rest)\<close>
proof -
  have j: "lookup (parseFieldTags t) ''json'' = []"
    using assms(2) by (simp add: lookup_def)
  then have "lookup (parseFieldTags t) ''json'' \<noteq> ''-''" by simp
  from parseStruct_body_entry [OF assms(1) this] j obtain entry
    where e: "parseStruct_body fld = Inr (Some entry)" and n: "Name entry = []"
    by auto
  define pre where "pre = concat (map entries_of before)"
  define post where "post = concat (map entries_of after)"
  have 1: "map (\<lambda>e. Inr (Some e)) pre = map parseStruct_body (filter taggable before)"
    unfolding pre_def by (rule entries_filter_taggable)
  have 2: "map (\<lambda>e. Inr (Some e)) post = map parseStruct_body (filter taggable after)"
    unfolding post_def by (rule entries_filter_taggable)
  have 3: "parseStruct typeName (before @ fld # after) =
       Inr \<lparr>TypeName = typeName, Fields = pre @ entry # post\<rparr>"
    using e by (simp add: parseStruct_Fields entries_of_def pre_def post_def)
  have 4: "Execute \<lparr>TypeName = typeName, Fields = pre @ entry # post\<rparr> =
       Inr (Execute_header typeName @ Execute_range 0 pre @
            Execute_field (length pre) entry @
            Execute_range (Suc (length pre)) post @ Execute_footer)"
    by (simp add: Execute_def Execute_range_append)
  have 5: \<open>\<exists>rest. Execute_field (length pre) entry =
        ''\<newline>        '' @ (if length pre \<noteq> 0 then '','' else []) @
        ''\<newline>        "": {'' @ rest\<close>
    using n by (simp add: Execute_field_def)
  from e n 1 2 3 4 5 show ?thesis by blast
qed

theorem missing_json_key_empty_name_witness:
  \<open>Tag (Field [''V''] (Ident ''string'') (Some ''`schema:"required"`'')) = Some ''`schema:"required"`'' \<and>
   parseFieldTags ''`schema:"required"`'' ''json'' = None \<and>
   (\<exists>entry pre post.
     parseStruct_body (Field [''V''] (Ident ''string'') (Some ''`schema:"required"`'')) = Inr (Some entry) \<and>
     Name entry = [] \<and>
     map (\<lambda>e. Inr (Some e)) pre = map parseStruct_body (filter taggable []) \<and>
     map (\<lambda>e. Inr (Some e)) post = map parseStruct_body (filter taggable []) \<and>
     parseStruct ''T'' ([] @ Field [''V''] (Ident ''string'') (Some ''`schema:"required"`'') # []) =
       Inr \<lparr>TypeName = ''T'', Fields = pre @ entry # post\<rparr> \<and>
     Execute \<lparr>TypeName = ''T'', Fields = pre @ entry # post\<rparr> =
       Inr (Execute_header ''T'' @ Execute_range 0 pre @
            Execute_field (length pre) entry @
            Execute_range (Suc (length pre)) post @ Execute_footer) \<and>
     (\<exists>rest. Execute_field (length pre) entry =
        ''\<newline>        '' @ (if length pre \<noteq> 0 then '','' else []) @
        ''\<newline>        "": {'' @ rest))\<close>
proof -
  have a: \<open>Tag (Field [''V''] (Ident ''string'') (Some ''`schema:"required"`'')) = Some ''`schema:"required"`''\<close>
    by simp
  have b: \<open>parseFieldTags ''`schema:"required"`'' ''json'' = None\<close>
    by code_simp
  from a b missing_json_key_empty_name [OF a b, of "[]" "[]" "''T''"] show ?thesis by blast
qed

text \<open>
  C3, as the specification states it: for a field whose schema tag contains
  \<open>minLength=\<close>, the constraint is in the output if and only if the text after
  \<open>minLength=\<close> up to the next comma parses as a non-negative integer. This fails for
  \<open>schema:"minLength=-5"\<close>: \<open>Atoi\<close> accepts \<open>-5\<close>, the entry gets the minimum length
  \<open>-5\<close> and the member \<open>"minLength": -5\<close> is written, although \<open>-5\<close> is not a
  non-negative integer.
\<close>

theorem minLength_negative_counterexample:
  \<open>parseStruct_body (minLength_field ''-5'') =
     Inr (Some \<lparr>Name = ''x'', Type = ''string'', Required = False,
                MinLength = Some (- 5), Format = [], Description = []\<rparr>) \<and>
   Execute_field 0 \<lparr>Name = ''x'', Type = ''string'', Required = False,
                MinLength = Some (- 5), Format = [], Description = []\<rparr> =
     ''\<newline>        \<newline>        "x": {\<newline>            "type": "string",\<newline>            "minLength": -5\<newline>        }'' \<and>
   Contains ''minLength=-5'' ''minLength='' \<and>
   option_text ''minLength='' ''minLength=-5'' = ''-5'' \<and>
   \<not> (MinLength \<lparr>Name = ''x'', Type = ''string'', Required = False,
                  MinLength = Some (- 5), Format = [], Description = []\<rparr> \<noteq> None \<longleftrightarrow>
      parses_as_nonnegative_integer ''-5'')\<close>
  by code_simp

text \<open>
  C3, amended: for a field that is not skipped and whose schema tag contains
  \<open>minLength=\<close>, the loop body returns an entry without error, and the minimum-length
  constraint is present, with the value parsed, if and only if \<open>strconv.Atoi\<close> accepts
  the text after the first \<open>minLength=\<close> up to the next comma (an optional sign and
  decimal digits within the range of \<open>int\<close>; negative values included). The member
  \<open>"minLength": v\<close> is written after \<open>required\<close> exactly in that case. In particular
  \<open>schema:"minLength=3"\<close> gives the integer member \<open>"minLength": 3\<close>, and
  \<open>schema:"minLength=abc"\<close> gives no \<open>minLength\<close> member and no error.
\<close>

theorem minLength_present_iff_Atoi:
  assumes "Tag fld = Some t"
    and "lookup (parseFieldTags t) ''json'' \<noteq> ''-''"
    and "Contains (lookup (parseFieldTags t) ''schema'') ''minLength=''"
  shows \<open>(\<exists>entry. parseStruct_body fld = Inr (Some entry) \<and>
     MinLength entry =
       (case Atoi (option_text ''minLength='' (lookup (parseFieldTags t) ''schema'')) of
          Inr v \<Rightarrow> Some v | Inl err \<Rightarrow> None) \<and>
     (MinLength entry \<noteq> None \<longleftrightarrow>
        (\<exists>v. Atoi (option_text ''minLength='' (lookup (parseFieldTags t) ''schema'')) = Inr v)) \<and>
     Execute_field k entry =
       ''\<newline>        '' @ (if k \<noteq> 0 then '','' else []) @
       ''\<newline>        "'' @ Name entry @ ''": {\<newline>            "type": "'' @ Type entry @ ''"'' @
       (if Required entry then '',\<newline>            "required": true'' else []) @
       (case Atoi (option_text ''minLength='' (lookup (parseFieldTags t) ''schema'')) of
          Inr v \<Rightarrow> '',\<newline>            "minLength": '' @ Itoa v
        | Inl err \<Rightarrow> []) @
       (if Format entry \<noteq> [] then '',\<newline>            "format": "'' @ Format entry @ ''"''
        else []) @
       ''\<newline>        }'') \<and>
     parseStruct_body (minLength_field ''3'') =
       Inr (Some \<lparr>Name = ''x'', Type = ''string'', Required = False,
                  MinLength = Some 3, Format = [], Description = []\<rparr>) \<and>
     Execute_field 0 \<lparr>Name = ''x'', Type = ''string'', Required = False,
                  MinLength = Some 3, Format = [], Description = []\<rparr> =
       ''\<newline>        \<newline>        "x": {\<newline>            "type": "string",\<newline>            "minLength": 3\<newline>        }'' \<and>
     parseStruct_body (minLength_field ''abc'') =
       Inr (Some \<lparr>Name = ''x'', Type = ''string'', Required = False,
                  MinLength = None, Format = [], Description = []\<rparr>) \<and>
     Execute_field 0 \<lparr>Name = ''x'', Type = ''string'', Required = False,
                  MinLength = None, Format = [], Description = []\<rparr> =
       ''\<newline>        \<newline>        "x": {\<newline>            "type": "string"\<newline>        }''\<close>
proof -
  let ?txt = "option_text ''minLength='' (lookup (parseFieldTags t) ''schema'')"
  from parseStruct_body_entry [OF assms(1,2)] obtain entry
    where e: "parseStruct_body fld = Inr (Some entry)"
      and m: "MinLength entry = minLength_of (lookup (parseFieldTags t) ''schema'')"
      and d: "Description entry = []"
    by auto
  have 1: "MinLength entry = (case Atoi ?txt of Inr v \<Rightarrow> Some v | Inl err \<Rightarrow> None)"
    using m assms(3) by (simp add: minLength_of_def)
  have 2: "MinLength entry \<noteq> None \<longleftrightarrow> (\<exists>v. Atoi ?txt = Inr v)"
    unfolding 1 by (cases "Atoi ?txt") simp_all
  have 3: \<open>Execute_field k entry =
       ''\<newline>        '' @ (if k \<noteq> 0 then '','' else []) @
       ''\<newline>        "'' @ Name entry @ ''": {\<newline>            "type": "'' @ Type entry @ ''"'' @
       (if Required entry then '',\<newline>            "required": true'' else []) @
       (case Atoi ?txt of
          Inr v \<Rightarrow> '',\<newline>            "minLength": '' @ Itoa v
        | Inl err \<Rightarrow> []) @
       (if Format entry \<noteq> [] then '',\<newline>            "format": "'' @ Format entry @ ''"''
        else []) @
       ''\<newline>        }''\<close>
    unfolding Execute_field_def 1 d by (cases "Atoi ?txt") simp_all
  from e 1 2 3 have \<open>\<exists>entry. parseStruct_body fld = Inr (Some entry) \<and>
     MinLength entry = (case Atoi ?txt of Inr v \<Rightarrow> Some v | Inl err \<Rightarrow> None) \<and>
     (MinLength entry \<noteq> None \<longleftrightarrow> (\<exists>v. Atoi ?txt = Inr v)) \<and>
     Execute_field k entry =
       ''\<newline>        '' @ (if k \<noteq> 0 then '','' else []) @
       ''\<newline>        "'' @ Name entry @ ''": {\<newline>            "type": "'' @ Type entry @ ''"'' @
       (if Required entry then '',\<newline>            "required": true'' else []) @
       (case Atoi ?txt of
          Inr v \<Rightarrow> '',\<newline>            "minLength": '' @ Itoa v
        | Inl err \<Rightarrow> []) @
       (if Format entry \<noteq> [] then '',\<newline>            "format": "'' @ Format entry @ ''"''
        else []) @
       ''\<newline>        }''\<close>
    by blast
  then show ?thesis using minLength_examples by (rule conjI)
qed

theorem minLength_present_iff_Atoi_witness:
  \<open>Tag (minLength_field ''3'') = Some ''`json:"x" schema:"minLength=3"`'' \<and>
   lookup (parseFieldTags ''`json:"x" schema:"minLength=3"`'') ''json'' \<noteq> ''-'' \<and>
   Contains (lookup (parseFieldTags ''`json:"x" schema:"minLength=3"`'') ''schema'') ''minLength='' \<and>
   Atoi (option_text ''minLength='' (lookup (parseFieldTags ''`json:"x" schema:"minLength=3"`'') ''schema'')) = Inr 3 \<and>
   (\<exists>entry. parseStruct_body (minLength_field ''3'') = Inr (Some entry) \<and>
      MinLength entry = Some 3 \<and>
      Execute_field 0 entry =
        ''\<newline>        \<newline>        "'' @ Name entry @ ''": {\<newline>            "type": "'' @ Type entry @ ''"'' @
        (if Required entry then '',\<newline>            "required": true'' else []) @
        '',\<newline>            "minLength": 3'' @
        (if Format entry \<noteq> [] then '',\<newline>            "format": "'' @ Format entry @ ''"''
         else []) @
        ''\<newline>        }'')\<close>
proof -
  let ?t = \<open>''`json:"x" schema:"minLength=3"`''\<close>
  have a: "Tag (minLength_field ''3'') = Some ?t"
    by (simp add: minLength_field_def)
  have b: "lookup (parseFieldTags ?t) ''json'' \<noteq> ''-''"
    by code_simp
  have c: "Contains (lookup (parseFieldTags ?t) ''schema'') ''minLength=''"
    by code_simp
  have d: "Atoi (option_text ''minLength='' (lookup (parseFieldTags ?t) ''schema'')) = Inr 3"
    by code_simp
  have i: "Itoa 3 = ''3''"
    by code_simp
  from minLength_present_iff_Atoi [OF a b c, of 0] obtain entry where
    "parseStruct_body (minLength_field ''3'') = Inr (Some entry)"
    "MinLength entry =
       (case Atoi (option_text ''minLength='' (lookup (parseFieldTags ?t) ''schema'')) of
          Inr v \<Rightarrow> Some v | Inl err \<Rightarrow> None)"
    \<open>Execute_field 0 entry =
       ''\<newline>        '' @ (if (0::nat) \<noteq> 0 then '','' else []) @
       ''\<newline>        "'' @ Name entry @ ''": {\<newline>            "type": "'' @ Type entry @ ''"'' @
       (if Required entry then '',\<newline>            "required": true'' else []) @
       (case Atoi (option_text ''minLength='' (lookup (parseFieldTags ?t) ''schema'')) of
          Inr v \<Rightarrow> '',\<newline>            "minLength": '' @ Itoa v
        | Inl err \<Rightarrow> []) @
       (if Format entry \<noteq> [] then '',\<newline>            "format": "'' @ Format entry @ ''"''
        else []) @
       ''\<newline>        }''\<close>
    by blast
  then have "parseStruct_body (minLength_field ''3'') = Inr (Some entry) \<and>
      MinLength entry = Some 3 \<and>
      Execute_field 0 entry =
        ''\<newline>        \<newline>        \"'' @ Name entry @ ''\": {\<newline>            \"type\": \"'' @ Type entry @ ''\"'' @
        (if Required entry then '',\<newline>            \"required\": true'' else []) @
        '',\<newline>            \"minLength\": 3'' @
        (if Format entry \<noteq> [] then '',\<newline>            \"format\": \"'' @ Format entry @ ''\"''
         else []) @
        ''\<newline>        }''"
    unfolding d by (simp add: i)
  with a b c d show ?thesis by blast
qed

text \<open>
  C7. When the file declares no structure type of the requested name, also when the
  name is declared as a type that is not a structure, the run prints the diagnostic
  naming the type and the file, ends with status 1, and calls \<open>os.WriteFile\<close> not at
  all, so the files are as they were. (The type name is not empty, a file argument is
  given and the file parses: otherwise \<open>main\<close> has ended before, with other messages.)
\<close>

theorem type_not_found:
  assumes "typeName \<noteq> []" and "args \<noteq> []"
    and "parser_ParseFile e (args ! 0) = Inr tree"
    and "\<not> declares_struct typeName tree"
  shows \<open>main e typeName args =
           ([Stdout (''Type '' @ typeName @ '' not found in '' @ args ! 0 @ ''\<newline>'')], 1) \<and>
         snd (main e typeName args) \<noteq> 0 \<and>
         writes_of (fst (main e typeName args)) = [] \<and>
         files_after (fst (main e typeName args)) fs = fs\<close>
proof -
  have "Inspect (main_inspect typeName) tree (Inr None) = Inr None"
    using assms(4) by (rule Inspect_not_declared)
  then have \<open>main e typeName args =
           ([Stdout (''Type '' @ typeName @ '' not found in '' @ args ! 0 @ ''\<newline>'')], 1)\<close>
    using assms(1-3) by (simp add: main_def)
  then show ?thesis by (simp add: files_after_def)
qed

theorem type_not_found_witness:
  \<open>''User'' \<noteq> [] \<and> [''types.go''] \<noteq> [] \<and>
   parser_ParseFile alias_only_env ([''types.go''] ! 0) = Inr alias_only_file \<and>
   \<not> declares_struct ''User'' alias_only_file \<and>
   main alias_only_env ''User'' [''types.go''] =
     ([Stdout ''Type User not found in types.go\<newline>''], 1) \<and>
   snd (main alias_only_env ''User'' [''types.go'']) \<noteq> 0 \<and>
   writes_of (fst (main alias_only_env ''User'' [''types.go''])) = [] \<and>
   files_after (fst (main alias_only_env ''User'' [''types.go''])) Map.empty = Map.empty\<close>
proof -
  have a: "''User'' \<noteq> []" and b: "[''types.go''] \<noteq> []" by simp_all
  have c: "parser_ParseFile alias_only_env ([''types.go''] ! 0) = Inr alias_only_file"
    by (simp add: alias_only_env_def)
  have d: "\<not> declares_struct ''User'' alias_only_file"
    by code_simp
  from type_not_found [OF a b c d, of Map.empty] a b c d show ?thesis
    by (simp add: files_after_def)
qed

text \<open>
  C8. When the write succeeds, \<open>generateSchemaFile\<close> writes the rendered text to the
  file named by the lower-cased type name followed by \<open>.schema.json\<close> (for \<open>User\<close>:
  \<open>user.schema.json\<close>), whatever the file system held at that name before, and asks
  for the permission bits \<open>0644\<close>: read for owner, group and others, write for the
  owner only.
\<close>

theorem schema_file_written:
  assumes "os_WriteFile e (outputFile_of e schema) (output_of schema) perm_0644 = None"
  shows "generateSchemaFile e schema =
           ([Stdout (confirmation (outputFile_of e schema)),
             WriteFile (outputFile_of e schema) (output_of schema) perm_0644 None], None) \<and>
         outputFile_of e schema = ToLower (unicode_ToLower e) (TypeName schema) @ ''.schema.json'' \<and>
         (isASCII (TypeName schema) \<longrightarrow>
            outputFile_of e schema = map lowerByte (TypeName schema) @ ''.schema.json'') \<and>
         (TypeName schema = ''User'' \<longrightarrow> outputFile_of e schema = ''user.schema.json'') \<and>
         files_after (fst (generateSchemaFile e schema)) fs (outputFile_of e schema) =
           Some (output_of schema) \<and>
         readable perm_0644 Owner \<and> writable perm_0644 Owner \<and>
         readable perm_0644 Group \<and> readable perm_0644 Others \<and>
         \<not> writable perm_0644 Group \<and> \<not> writable perm_0644 Others \<and>
         \<not> executable perm_0644 Owner \<and> \<not> executable perm_0644 Group \<and>
         \<not> executable perm_0644 Others"
proof -
  have u: "ToLower (unicode_ToLower e) ''User'' = ''user''"
    by code_simp
  have g: "generateSchemaFile e schema =
           ([Stdout (confirmation (outputFile_of e schema)),
             WriteFile (outputFile_of e schema) (output_of schema) perm_0644 None], None)"
    using assms generateSchemaFile_events [of e schema] by simp
  have f: "files_after (fst (generateSchemaFile e schema)) fs (outputFile_of e schema) =
           Some (output_of schema)"
    unfolding g by (simp add: files_after_def)
  have a: "isASCII (TypeName schema) \<longrightarrow>
            outputFile_of e schema = map lowerByte (TypeName schema) @ ''.schema.json''"
    by (simp add: outputFile_of_def ToLower_ASCII)
  have n: "TypeName schema = ''User'' \<longrightarrow> outputFile_of e schema = ''user.schema.json''"
    by (simp add: outputFile_of_def u)
  show ?thesis using g f a n perm_0644_bits by (simp add: outputFile_of_def)
qed

theorem schema_file_written_witness:
  "os_WriteFile User_example_env (outputFile_of User_example_env User_example_schema)
     (output_of User_example_schema) perm_0644 = None \<and>
   isASCII (TypeName User_example_schema) \<and>
   TypeName User_example_schema = ''User'' \<and>
   generateSchemaFile User_example_env User_example_schema =
     ([Stdout (confirmation ''user.schema.json''),
       WriteFile ''user.schema.json'' (output_of User_example_schema) perm_0644 None], None) \<and>
   files_after (fst (generateSchemaFile User_example_env User_example_schema))
     [''user.schema.json'' \<mapsto> ''old content''] ''user.schema.json'' =
       Some (output_of User_example_schema)"
proof -
  have a: "os_WriteFile User_example_env (outputFile_of User_example_env User_example_schema)
     (output_of User_example_schema) perm_0644 = None"
    by (simp add: User_example_env_def)
  have b: "isASCII (TypeName User_example_schema)"
    by code_simp
  have c: "TypeName User_example_schema = ''User''"
    by (simp add: User_example_schema_def)
  note T = schema_file_written [OF a, of "[''user.schema.json'' \<mapsto> ''old content'']"]
  from T c have n: "outputFile_of User_example_env User_example_schema = ''user.schema.json''"
    by blast
  from T have g: "generateSchemaFile User_example_env User_example_schema =
           ([Stdout (confirmation (outputFile_of User_example_env User_example_schema)),
             WriteFile (outputFile_of User_example_env User_example_schema)
               (output_of User_example_schema) perm_0644 None], None)"
    by (rule conjunct1)
  from T have f: "files_after (fst (generateSchemaFile User_example_env User_example_schema))
     [''user.schema.json'' \<mapsto> ''old content'']
     (outputFile_of User_example_env User_example_schema) = Some (output_of User_example_schema)"
    by blast
  from a b c g [unfolded n] f [unfolded n] show ?thesis by blast
qed

text \<open>
  C10. \<open>generateSchemaFile\<close> prints the confirmation, with the name of the output
  file, before it calls \<open>os.WriteFile\<close>: when the type was found and the write fails,
  standard output holds the confirmation followed by the error report of \<open>main\<close>, and
  the exit status is 1.
\<close>

theorem confirmation_printed_before_write:
  assumes "typeName \<noteq> []" and "args \<noteq> []"
    and "parser_ParseFile e (args ! 0) = Inr tree"
    and "Inspect (main_inspect typeName) tree (Inr None) = Inr (Some schema)"
    and "os_WriteFile e (outputFile_of e schema) (output_of schema) perm_0644 = Some err"
  shows \<open>generateSchemaFile e schema =
           ([Stdout (confirmation (outputFile_of e schema)),
             WriteFile (outputFile_of e schema) (output_of schema) perm_0644 (Some err)],
            Some err) \<and>
         main e typeName args =
           ([Stdout (confirmation (outputFile_of e schema)),
             WriteFile (outputFile_of e schema) (output_of schema) perm_0644 (Some err),
             Stdout (''Error generating schema: '' @ err @ ''\<newline>'')], 1) \<and>
         stdout_of (fst (main e typeName args)) =
           ''Schema file generated successfully\<newline> FileName:  '' @ outputFile_of e schema @
           ''\<newline>Error generating schema: '' @ err @ ''\<newline>'' \<and>
         snd (main e typeName args) \<noteq> 0\<close>
proof -
  have g: "generateSchemaFile e schema =
           ([Stdout (confirmation (outputFile_of e schema)),
             WriteFile (outputFile_of e schema) (output_of schema) perm_0644 (Some err)],
            Some err)"
    using assms(5) generateSchemaFile_events [of e schema] by simp
  have m: \<open>main e typeName args =
           ([Stdout (confirmation (outputFile_of e schema)),
             WriteFile (outputFile_of e schema) (output_of schema) perm_0644 (Some err),
             Stdout (''Error generating schema: '' @ err @ ''\<newline>'')], 1)\<close>
    using assms(1-4) by (simp add: main_def g)
  show ?thesis unfolding m using g by (simp add: confirmation_def)
qed


theorem confirmation_printed_before_write_witness:
  \<open>''User'' \<noteq> [] \<and> [''user.go''] \<noteq> [] \<and>
   parser_ParseFile failing_write_env ([''user.go''] ! 0) =
     Inr (File ''main'' [GenDecl [TypeSpec ''User'' (StructType User_example)]]) \<and>
   Inspect (main_inspect ''User'')
     (File ''main'' [GenDecl [TypeSpec ''User'' (StructType User_example)]]) (Inr None) =
     Inr (Some User_example_schema) \<and>
   os_WriteFile failing_write_env (outputFile_of failing_write_env User_example_schema)
     (output_of User_example_schema) perm_0644 =
     Some (''open '' @ outputFile_of failing_write_env User_example_schema @ '': permission denied'') \<and>
   stdout_of (fst (main failing_write_env ''User'' [''user.go''])) =
     ''Schema file generated successfully\<newline> FileName:  '' @
     outputFile_of failing_write_env User_example_schema @
     ''\<newline>Error generating schema: '' @
     (''open '' @ outputFile_of failing_write_env User_example_schema @ '': permission denied'') @
     ''\<newline>'' \<and>
   snd (main failing_write_env ''User'' [''user.go'']) \<noteq> 0\<close>
proof -
  let ?tree = "File ''main'' [GenDecl [TypeSpec ''User'' (StructType User_example)]]"
  have a: "''User'' \<noteq> []" and b: "[''user.go''] \<noteq> []" by simp_all
  have c: "parser_ParseFile failing_write_env ([''user.go''] ! 0) = Inr ?tree"
    by (simp add: failing_write_env_def)
  have d: "Inspect (main_inspect ''User'') ?tree (Inr None) = Inr (Some User_example_schema)"
    by code_simp
  have w: "os_WriteFile failing_write_env (outputFile_of failing_write_env User_example_schema)
     (output_of User_example_schema) perm_0644 =
     Some (''open '' @ outputFile_of failing_write_env User_example_schema @ '': permission denied'')"
    by (simp add: failing_write_env_def)
  note T = confirmation_printed_before_write [OF a b c d w]
  have s: \<open>stdout_of (fst (main failing_write_env ''User'' [''user.go''])) =
     ''Schema file generated successfully\<newline> FileName:  '' @
     outputFile_of failing_write_env User_example_schema @
     ''\<newline>Error generating schema: '' @
     (''open '' @ outputFile_of failing_write_env User_example_schema @ '': permission denied'') @
     ''\<newline>''\<close>
    by (rule conjunct1 [OF conjunct2 [OF conjunct2 [OF T]]])
  have x: "snd (main failing_write_env ''User'' [''user.go'']) \<noteq> 0"
    by (rule conjunct2 [OF conjunct2 [OF conjunct2 [OF T]]])
  show ?thesis
    by (intro conjI a b c d w s x)
qed

text \<open>
  C2 says that the first structure declaration of the requested name is the one used.
  The closure answers \<open>false\<close> at a match, which only keeps \<open>ast.Inspect\<close> from the
  children of that node: the walk goes on, and a later declaration of the name as a
  structure, at top level or inside a function body, overwrites \<open>schema\<close>. On both files
  the schema built is that of the last declaration (field \<open>b\<close>), not of the first
  (field \<open>a\<close>); the declaration that is not a structure is passed over, as the claim says.
\<close>

theorem later_declaration_overwrites:
  \<open>Inspect (main_inspect ''User'') shadowed_User_file (Inr None) =
     Inr (Some \<lparr>TypeName = ''User'',
                Fields = [\<lparr>Name = ''b'', Type = ''string'', Required = False,
                           MinLength = None, Format = [], Description = []\<rparr>]\<rparr>) \<and>
   Inspect (main_inspect ''User'') duplicate_User_file (Inr None) =
     Inr (Some \<lparr>TypeName = ''User'',
                Fields = [\<lparr>Name = ''b'', Type = ''string'', Required = False,
                           MinLength = None, Format = [], Description = []\<rparr>]\<rparr>) \<and>
   parseStruct ''User'' [Field [''A''] (Ident ''int'') (Some ''`json:"a"`'')] =
     Inr \<lparr>TypeName = ''User'',
          Fields = [\<lparr>Name = ''a'', Type = ''integer'', Required = False,
                     MinLength = None, Format = [], Description = []\<rparr>]\<rparr>\<close>
  by (simp add: shadowed_User_file_def duplicate_User_file_def Inspect_descend
      Inspect_struct_decl is_struct_decl_def entries_a entries_b parseStruct_Fields)

text \<open>
  C4, as the specification states it: a field whose \<open>json\<close> tag value is exactly
  \<open>-\<close> has no entry in the output, whatever else its tag holds. \<open>parseFieldTags\<close>
  splits the tag at single spaces and each token at colons, and a later token replaces
  an earlier one. So a field tagged \<open>json:"-"\<close>, a tab, \<open>schema:"required"\<close> is read
  as one token of three parts, no \<open>json\<close> value is found, and the field is written with
  the empty name; and for the tag \<open>json:"-" note:"see json:x"\<close> the token \<open>json:x"\<close>
  replaces the value by \<open>x\<close>, and the field is written with the name \<open>x\<close>. In both
  tags the \<open>json\<close> value, read by the grammar of the specification, is \<open>-\<close>.
\<close>

theorem skip_marker_counterexample:
  \<open>spec_tags tab_separated_tag ''json'' = Some ''-'' \<and>
   parseStruct ''T'' [Field [''Secret''] (Ident ''string'') (Some tab_separated_tag)] =
     Inr \<lparr>TypeName = ''T'',
          Fields = [\<lparr>Name = [], Type = ''string'', Required = False,
                     MinLength = None, Format = [], Description = []\<rparr>]\<rparr> \<and>
   spec_tags later_json_tag ''json'' = Some ''-'' \<and>
   parseStruct ''T'' [Field [''Secret''] (Ident ''string'') (Some later_json_tag)] =
     Inr \<lparr>TypeName = ''T'',
          Fields = [\<lparr>Name = ''x'', Type = ''string'', Required = False,
                     MinLength = None, Format = [], Description = []\<rparr>]\<rparr>\<close>
  by code_simp

text \<open>
  C4, amended: a field with no tag at all has no entry in the output; and a field whose
  tag is a raw string of \<open>key:"value"\<close> pairs separated by single spaces, with distinct
  keys and plain keys and values, one of the pairs being \<open>json:"-"\<close>, has no entry in
  the output, whatever the other pairs are: the loop body continues, and the schema of a
  structure with the field is the schema of the structure without it.
\<close>

theorem skip_marker_field_absent:
  assumes "case tag of
             None \<Rightarrow> True
           | Some pairs \<Rightarrow> well_formed_tag pairs \<and> (''json'', ''-'') \<in> set pairs"
  shows "parseStruct_body (Field names typ (map_option tag_literal tag)) = Inr None \<and>
         parseStruct typeName
           (before @ Field names typ (map_option tag_literal tag) # after) =
         parseStruct typeName (before @ after)"
proof -
  let ?fld = "Field names typ (map_option tag_literal tag)"
  have "case Tag ?fld of None \<Rightarrow> True
        | Some tagValue \<Rightarrow> lookup (parseFieldTags tagValue) ''json'' = ''-''"
    using assms by (cases tag) (simp_all add: well_formed_json_dash)
  then show ?thesis by (rule parseStruct_without_skipped)
qed

theorem skip_marker_field_absent_witness:
  \<open>(case Some [(''json'', ''-''), (''schema'', ''required,minLength=3''), (''db'', ''secret'')] of
      None \<Rightarrow> True
    | Some pairs \<Rightarrow> well_formed_tag pairs \<and> (''json'', ''-'') \<in> set pairs) \<and>
   tag_literal [(''json'', ''-''), (''schema'', ''required,minLength=3''), (''db'', ''secret'')] =
     ''`json:"-" schema:"required,minLength=3" db:"secret"`'' \<and>
   parseStruct_body
     (Field [''IgnoreInJson''] (Ident ''string'')
        (map_option tag_literal
           (Some [(''json'', ''-''), (''schema'', ''required,minLength=3''), (''db'', ''secret'')]))) =
     Inr None \<and>
   parseStruct ''User''
     ([Field [''A''] (Ident ''int'') (Some ''`json:"a"`'')] @
      Field [''IgnoreInJson''] (Ident ''string'')
        (map_option tag_literal
           (Some [(''json'', ''-''), (''schema'', ''required,minLength=3''), (''db'', ''secret'')])) #
      [Field [''NoJSONTag''] (Ident ''string'') None]) =
   parseStruct ''User''
     ([Field [''A''] (Ident ''int'') (Some ''`json:"a"`'')] @
      [Field [''NoJSONTag''] (Ident ''string'') None])\<close>
proof -
  let ?tag = "Some [(''json'', ''-''), (''schema'', ''required,minLength=3''), (''db'', ''secret'')]"
  have h: "case ?tag of
      None \<Rightarrow> True
    | Some pairs \<Rightarrow> well_formed_tag pairs \<and> (''json'', ''-'') \<in> set pairs"
    by code_simp
  have l: \<open>tag_literal [(''json'', ''-''), (''schema'', ''required,minLength=3''), (''db'', ''secret'')] =
     ''`json:"-" schema:"required,minLength=3" db:"secret"`''\<close>
    by code_simp
  note T = skip_marker_field_absent [OF h, of "[''IgnoreInJson'']" "Ident ''string''" "''User''"
      \<open>[Field [''A''] (Ident ''int'') (Some ''`json:"a"`'')]\<close>
      "[Field [''NoJSONTag''] (Ident ''string'') None]"]
  show ?thesis
    by (intro conjI h l conjunct1 [OF T] conjunct2 [OF T])
qed

text \<open>
  C5, as the specification states it: a structure with N taggable fields gives exactly
  N members. \<open>parseStruct\<close> goes through the field declarations, never through their
  names: the declaration \<open>E, F int\<close> with the tag \<open>json:"ef"\<close> declares two taggable
  fields and gives one member. And a field whose tag is \<open>json:"-"\<close>, a tab,
  \<open>schema:"required"\<close> is not taggable by the grammar of the specification, and gives
  one member (with the empty name).
\<close>

theorem members_count_counterexample:
  \<open>spec_taggable_fields [Field [''E'', ''F''] (Ident ''int'') (Some ''`json:"ef"`'')] = 2 \<and>
   parseStruct ''T'' [Field [''E'', ''F''] (Ident ''int'') (Some ''`json:"ef"`'')] =
     Inr \<lparr>TypeName = ''T'',
          Fields = [\<lparr>Name = ''ef'', Type = ''integer'', Required = False,
                     MinLength = None, Format = [], Description = []\<rparr>]\<rparr> \<and>
   spec_taggable_fields [Field [''Secret''] (Ident ''string'') (Some tab_separated_tag)] = 0 \<and>
   parseStruct ''T'' [Field [''Secret''] (Ident ''string'') (Some tab_separated_tag)] =
     Inr \<lparr>TypeName = ''T'',
          Fields = [\<lparr>Name = [], Type = ''string'', Required = False,
                     MinLength = None, Format = [], Description = []\<rparr>]\<rparr>\<close>
  by code_simp

text \<open>
  C5, amended: for a structure whose tags are raw strings of \<open>key:"value"\<close> pairs
  separated by single spaces, with distinct keys and plain keys and values, let N be the
  number of field declarations that have a tag without the pair \<open>json:"-"\<close> (a
  declaration that names several fields counts once). Then \<open>parseStruct\<close> returns,
  without panic, a schema of exactly N entries, one for each such declaration in
  declaration order, with the \<open>json\<close> value as name (empty if the tag has none) and the
  type inferred from the declared type; and the rendered properties object consists of
  exactly the N member texts \<open>"name": { "type": ... }\<close> in that order, separated by
  commas.
\<close>

theorem members_of_declarations:
  assumes "list_all well_formed_decl decls"
  shows \<open>\<exists>schema. parseStruct typeName (map decl_field decls) = Inr schema \<and>
     TypeName schema = typeName \<and>
     length (Fields schema) = length (filter emitted decls) \<and>
     map Name (Fields schema) = map property_name (filter emitted decls) \<and>
     map Type (Fields schema) = map (\<lambda>d. getFieldType (fst (snd d))) (filter emitted decls) \<and>
     Execute schema =
       Inr (''{\<newline>    "$schema": "http://json-schema.org/draft-07/schema#",\<newline>    "title": "'' @
            typeName @ ''",\<newline>    "type": "object",\<newline>    "properties": {'' @
            concat (map (\<lambda>(k, entry).
                ''\<newline>        '' @ (if k \<noteq> 0 then '','' else []) @
                ''\<newline>        "'' @ Name entry @ ''": {\<newline>            "type": "'' @ Type entry @ ''"'' @
                (if Required entry then '',\<newline>            "required": true'' else []) @
                (case MinLength entry of
                   None \<Rightarrow> []
                 | Some v \<Rightarrow> '',\<newline>            "minLength": '' @ Itoa v) @
                (if Format entry \<noteq> [] then '',\<newline>            "format": "'' @ Format entry @ ''"''
                 else []) @
                ''\<newline>        }'')
              (enumerate 0 (Fields schema))) @
            ''\<newline>    }\<newline>}'')\<close>
proof -
  let ?flds = "map decl_field decls"
  let ?es = "concat (map entries_of ?flds)"
  let ?schema = "\<lparr>TypeName = typeName, Fields = ?es\<rparr>"
  have f: "filter taggable ?flds = map decl_field (filter emitted decls)"
    using assms by (rule filter_taggable_decls)
  have wf: "\<And>d. d \<in> set (filter emitted decls) \<Longrightarrow> well_formed_decl d"
    using assms by (auto simp: list_all_iff)
  have 1: "parseStruct typeName ?flds = Inr ?schema" by (rule parseStruct_Fields)
  have 2: "length ?es = length (filter emitted decls)"
  proof -
    have "length ?es = length (filter taggable ?flds)" by (rule entries_length)
    also have "\<dots> = length (filter emitted decls)" unfolding f by simp
    finally show ?thesis .
  qed
  have 3: "map Name ?es = map property_name (filter emitted decls)"
  proof -
    have "map Name ?es = map json_name (filter taggable ?flds)" by (rule entries_names)
    also have "\<dots> = map (\<lambda>d. json_name (decl_field d)) (filter emitted decls)"
      unfolding f by simp
    also have "\<dots> = map property_name (filter emitted decls)"
      by (rule map_cong [OF refl]) (simp add: wf json_name_decl_field)
    finally show ?thesis .
  qed
  have 4: "map Type ?es = map (\<lambda>d. getFieldType (fst (snd d))) (filter emitted decls)"
  proof -
    have "map Type ?es = map (\<lambda>fld. getFieldType (FieldType fld)) (filter taggable ?flds)"
      by (rule entries_types)
    also have "\<dots> = map (\<lambda>d. getFieldType (FieldType (decl_field d))) (filter emitted decls)"
      unfolding f by simp
    also have "\<dots> = map (\<lambda>d. getFieldType (fst (snd d))) (filter emitted decls)"
      by (rule map_cong [OF refl]) (simp add: decl_field_def split_beta)
    finally show ?thesis .
  qed
  let ?member = \<open>\<lambda>(k, entry).
                ''\<newline>        '' @ (if k \<noteq> 0 then '','' else []) @
                ''\<newline>        "'' @ Name entry @ ''": {\<newline>            "type": "'' @ Type entry @ ''"'' @
                (if Required entry then '',\<newline>            "required": true'' else []) @
                (case MinLength entry of
                   None \<Rightarrow> []
                 | Some v \<Rightarrow> '',\<newline>            "minLength": '' @ Itoa v) @
                (if Format entry \<noteq> [] then '',\<newline>            "format": "'' @ Format entry @ ''"''
                 else []) @
                ''\<newline>        }''\<close>
  have m: "\<And>x. x \<in> set (enumerate 0 ?es) \<Longrightarrow>
             (case x of (k, entry) \<Rightarrow> Execute_field k entry) = ?member x"
  proof -
    fix x assume x: "x \<in> set (enumerate 0 ?es)"
    obtain k entry where ke: "x = (k, entry)" by (cases x)
    from x ke have "entry \<in> set ?es" by (blast dest: enumerate_member)
    then have "Description entry = []" by (rule entries_Description)
    then show "(case x of (k, entry) \<Rightarrow> Execute_field k entry) = ?member x"
      unfolding ke prod.case by (rule Execute_field_text)
  qed
  have mm: "map (\<lambda>(k, entry). Execute_field k entry) (enumerate 0 ?es) =
            map ?member (enumerate 0 ?es)"
    by (rule map_cong [OF refl]) (rule m)
  have 5: "Execute ?schema =
       Inr (Execute_header typeName @
            concat (map ?member (enumerate 0 (Fields ?schema))) @ Execute_footer)"
    unfolding Execute_def Execute_range_enumerate SchemaType.simps mm ..
  have n: "TypeName ?schema = typeName" by simp
  have c2: "length (Fields ?schema) = length (filter emitted decls)"
    using 2 by simp
  have c3: "map Name (Fields ?schema) = map property_name (filter emitted decls)"
    using 3 by simp
  have c4: "map Type (Fields ?schema) =
      map (\<lambda>d. getFieldType (fst (snd d))) (filter emitted decls)"
    using 4 by simp
  note c5 = 5 [unfolded Execute_header_def Execute_footer_def append_assoc]
  show ?thesis
    apply (intro exI conjI)
         apply (rule 1)
        apply (rule n)
       apply (rule c2)
      apply (rule c3)
     apply (rule c4)
    apply (rule c5)
    done
qed


theorem members_of_declarations_witness:
  "list_all well_formed_decl User_declarations \<and>
   length (filter emitted User_declarations) = 6 \<and>
   map property_name (filter emitted User_declarations) =
     [''id'', ''name'', ''username'', ''email'', ''isActive'', ''ef''] \<and>
   (\<exists>schema. parseStruct ''User'' (map decl_field User_declarations) = Inr schema \<and>
      length (Fields schema) = 6 \<and>
      map Name (Fields schema) =
        [''id'', ''name'', ''username'', ''email'', ''isActive'', ''ef''])"
proof -
  have h: "list_all well_formed_decl User_declarations"
    by code_simp
  have e1: "length (filter emitted User_declarations) = 6"
    by code_simp
  have e2: "map property_name (filter emitted User_declarations) =
     [''id'', ''name'', ''username'', ''email'', ''isActive'', ''ef'']"
    by code_simp
  from members_of_declarations [OF h, of "''User''"] obtain schema
    where p: "parseStruct ''User'' (map decl_field User_declarations) = Inr schema"
      and l: "length (Fields schema) = length (filter emitted User_declarations)"
      and nm: "map Name (Fields schema) = map property_name (filter emitted User_declarations)"
    by (elim exE conjE)
  have l6: "length (Fields schema) = 6" using l e1 by simp
  have nm6: "map Name (Fields schema) =
      [''id'', ''name'', ''username'', ''email'', ''isActive'', ''ef'']"
    using nm e2 by simp
  show ?thesis
    apply (intro conjI exI)
         apply (rule h)
        apply (rule e1)
       apply (rule e2)
      apply (rule p)
     apply (rule l6)
    apply (rule nm6)
    done
qed

end
